theory Spec2Isabelle
  imports Main
begin

section \<open>Go strings as byte lists\<close>

text \<open>
  A Go \<^verbatim>\<open>string\<close> is a sequence of bytes; it is modelled as a \<^typ>\<open>string\<close>, a list of
  8-bit characters. Byte comparisons such as \<^verbatim>\<open>'a' <= c && c <= 'z'\<close> are comparisons of
  the byte values, read with \<^const>\<open>of_char\<close>.
\<close>

definition byte :: "char \<Rightarrow> nat" where
  "byte c = of_char c"

definition isLower :: "char \<Rightarrow> bool" where
  "isLower c = (97 \<le> byte c \<and> byte c \<le> 122)"

definition isUpper :: "char \<Rightarrow> bool" where
  "isUpper c = (65 \<le> byte c \<and> byte c \<le> 90)"

definition isDigit :: "char \<Rightarrow> bool" where
  "isDigit c = (48 \<le> byte c \<and> byte c \<le> 57)"

text \<open>The functions of package \<^verbatim>\<open>strings\<close> that the client's call chain reaches.\<close>

definition strings_HasPrefix :: "string \<Rightarrow> string \<Rightarrow> bool" where
  "strings_HasPrefix s p = (take (length p) s = p)"

definition strings_HasSuffix :: "string \<Rightarrow> string \<Rightarrow> bool" where
  "strings_HasSuffix s p = (length p \<le> length s \<and> drop (length s - length p) s = p)"

fun strings_Index :: "string \<Rightarrow> string \<Rightarrow> nat option" where
  "strings_Index [] sep = (if sep = [] then Some 0 else None)"
| "strings_Index (x # xs) sep =
     (if strings_HasPrefix (x # xs) sep then Some 0
      else map_option Suc (strings_Index xs sep))"

fun strings_LastIndex :: "string \<Rightarrow> string \<Rightarrow> nat option" where
  "strings_LastIndex [] sep = (if sep = [] then Some 0 else None)"
| "strings_LastIndex (x # xs) sep =
     (case strings_LastIndex xs sep of
        Some i \<Rightarrow> Some (Suc i)
      | None \<Rightarrow> if strings_HasPrefix (x # xs) sep then Some 0 else None)"

definition strings_Contains :: "string \<Rightarrow> string \<Rightarrow> bool" where
  "strings_Contains s sub = (strings_Index s sub \<noteq> None)"

definition strings_Cut :: "string \<Rightarrow> string \<Rightarrow> string \<times> string \<times> bool" where
  "strings_Cut s sep =
     (case strings_Index s sep of
        Some i \<Rightarrow> (take i s, drop (i + length sep) s, True)
      | None \<Rightarrow> (s, [], False))"

text \<open>\<^verbatim>\<open>strings.Count\<close>, for a separator of one byte (the only use is \<^verbatim>\<open>Count(rest, "?")\<close>).\<close>

definition strings_Count :: "string \<Rightarrow> char \<Rightarrow> nat" where
  "strings_Count s c = length (filter (\<lambda>x. x = c) s)"

text \<open>
  \<^verbatim>\<open>strings.ToLower\<close> on ASCII input: the only caller lowers a URL scheme, which
  \<^verbatim>\<open>getScheme\<close> has restricted to ASCII letters, digits, \<^verbatim>\<open>+\<close>, \<^verbatim>\<open>-\<close> and \<^verbatim>\<open>.\<close>.
\<close>

definition toLowerByte :: "char \<Rightarrow> char" where
  "toLowerByte c = (if isUpper c then char_of (byte c + 32) else c)"

definition strings_ToLower :: "string \<Rightarrow> string" where
  "strings_ToLower s = map toLowerByte s"

definition strings_TrimSuffix :: "string \<Rightarrow> string \<Rightarrow> string" where
  "strings_TrimSuffix s suf =
     (if strings_HasSuffix s suf then take (length s - length suf) s else s)"

section \<open>Errors\<close>

text \<open>
  Go's \<^verbatim>\<open>error\<close> values that the client creates or passes on. The constructors keep what
  the client and its callers can observe: the kind of the error, its text and the error it
  wraps.
  \<^item> \<open>ErrorString\<close>: \<^verbatim>\<open>errors.New\<close> of the standard library (also any error of a
    collaborator that is only a text);
  \<^item> \<open>EscapeError\<close>, \<open>InvalidHostError\<close>, \<open>InvalidPortError\<close>, \<open>UrlError\<close>: the errors
    of \<^verbatim>\<open>net/url\<close>;
  \<^item> \<open>InvalidMethodError\<close>: \<^verbatim>\<open>net/http: invalid method %q\<close>;
  \<^item> \<open>Fundamental\<close>: \<^verbatim>\<open>errors.New\<close> of \<^verbatim>\<open>github.com/pkg/errors\<close>;
  \<^item> \<open>WithMessage e m\<close> and \<open>WithStack e\<close>: the two layers that \<^verbatim>\<open>errors.Wrap(e, m)\<close>
    of \<^verbatim>\<open>github.com/pkg/errors\<close> puts around \<open>e\<close>, the message and the stack trace;
  \<^item> \<open>WrapError p e\<close>: \<^verbatim>\<open>fmt.Errorf(p + "%w", e)\<close>.
\<close>

datatype error =
    ErrorString string
  | EscapeError string
  | InvalidHostError string
  | InvalidPortError string
  | InvalidMethodError string
  | UrlError string string error
  | Fundamental string
  | WithMessage error string
  | WithStack error
  | WrapError string error

text \<open>
  The method \<^verbatim>\<open>Error() string\<close>. The verb \<^verbatim>\<open>%q\<close> (\<^verbatim>\<open>strconv.Quote\<close>) that the errors of
  \<^verbatim>\<open>net/url\<close> and \<^verbatim>\<open>net/http\<close> use is the parameter \<open>q\<close>.
\<close>

fun Error :: "(string \<Rightarrow> string) \<Rightarrow> error \<Rightarrow> string" where
  "Error q (ErrorString s) = s"
| "Error q (EscapeError s) = ''invalid URL escape '' @ q s"
| "Error q (InvalidHostError s) = ''invalid character '' @ q s @ '' in host name''"
| "Error q (InvalidPortError s) = ''invalid port '' @ q s @ '' after host''"
| "Error q (InvalidMethodError s) = ''net/http: invalid method '' @ q s"
| "Error q (UrlError op u e) = op @ '' '' @ q u @ '': '' @ Error q e"
| "Error q (Fundamental s) = s"
| "Error q (WithMessage e m) = m @ '': '' @ Error q e"
| "Error q (WithStack e) = Error q e"
| "Error q (WrapError p e) = p @ Error q e"

text \<open>\<^verbatim>\<open>Unwrap\<close> (for \<^verbatim>\<open>fmt.Errorf\<close> with \<^verbatim>\<open>%w\<close> and \<^verbatim>\<open>url.Error\<close>) and \<^verbatim>\<open>Cause\<close> (pkg/errors).\<close>

fun Unwrap :: "error \<Rightarrow> error option" where
  "Unwrap (WrapError p e) = Some e"
| "Unwrap (UrlError op u e) = Some e"
| "Unwrap (WithMessage e m) = Some e"
| "Unwrap (WithStack e) = Some e"
| "Unwrap e = None"

fun Cause :: "error \<Rightarrow> error" where
  "Cause (WithMessage e m) = Cause e"
| "Cause (WithStack e) = Cause e"
| "Cause e = e"

text \<open>
  \<^verbatim>\<open>errors.Wrap\<close> of pkg/errors returns nil for a nil error; \<open>Wrapped err message\<close> is
  what it returns for an error that is not nil.
\<close>

definition Wrapped :: "error \<Rightarrow> string \<Rightarrow> error" where
  "Wrapped err message = WithStack (WithMessage err message)"

fun errors_Wrap :: "error option \<Rightarrow> string \<Rightarrow> error option" where
  "errors_Wrap None message = None"
| "errors_Wrap (Some err) message = Some (Wrapped err message)"

text \<open>The verb \<^verbatim>\<open>%d\<close> of \<^verbatim>\<open>fmt\<close> on an \<^verbatim>\<open>int\<close>: decimal digits, with a minus sign.\<close>

definition digitChar :: "nat \<Rightarrow> char" where
  "digitChar d = char_of (48 + d)"

function fmt_nat :: "nat \<Rightarrow> string" where
  "fmt_nat n = (if n < 10 then [digitChar n] else fmt_nat (n div 10) @ [digitChar (n mod 10)])"
  by pat_completeness auto
termination
  by (relation "measure id") auto

declare fmt_nat.simps [simp del]

definition fmt_d :: "int \<Rightarrow> string" where
  "fmt_d i = (if i < 0 then CHR ''-'' # fmt_nat (nat (- i)) else fmt_nat (nat i))"

section \<open>Package path: Clean and Join\<close>

text \<open>
  \<^verbatim>\<open>path.Clean\<close> reads \<^verbatim>\<open>path\<close> at index \<^verbatim>\<open>r\<close> and writes to the buffer \<^verbatim>\<open>out\<close>; here
  \<open>rest\<close> is \<^verbatim>\<open>path[r:]\<close> and \<open>out\<close> is the written part \<^verbatim>\<open>out.buf[:out.w]\<close>, so that
  \<^verbatim>\<open>out.w\<close> is \<open>length out\<close>. \<^verbatim>\<open>dotdot\<close> is the index in \<^verbatim>\<open>out\<close> where \<^verbatim>\<open>..\<close> must stop.
\<close>

text \<open>
  The backtracking of a \<^verbatim>\<open>..\<close> element:
  \<^verbatim>\<open>out.w--; for out.w > dotdot && out.index(out.w) != '/' { out.w-- }\<close>.
  The bytes it reads are below the old \<^verbatim>\<open>out.w\<close>, so they are bytes of \<open>out\<close>.
\<close>

function backtrack :: "string \<Rightarrow> nat \<Rightarrow> nat \<Rightarrow> nat" where
  "backtrack out dotdot w =
     (if w > dotdot \<and> out ! w \<noteq> CHR ''/'' then backtrack out dotdot (w - 1) else w)"
  by pat_completeness auto
termination
  by (relation "measure (\<lambda>(out, dotdot, w). w)") auto

declare backtrack.simps [simp del]

text \<open>One iteration of the loop \<^verbatim>\<open>for r < n\<close>, on the byte \<open>c\<close> at \<^verbatim>\<open>path[r]\<close>.\<close>

definition Clean_step ::
  "bool \<Rightarrow> char \<Rightarrow> string \<Rightarrow> string \<Rightarrow> nat \<Rightarrow> string \<times> string \<times> nat" where
  "Clean_step rooted c rest out dotdot =
     (if c = CHR ''/'' then
        \<comment> \<open>empty path element\<close>
        (rest, out, dotdot)
      else if c = CHR ''.'' \<and> (rest = [] \<or> hd rest = CHR ''/'') then
        \<comment> \<open>. element\<close>
        (rest, out, dotdot)
      else if c = CHR ''.'' \<and> hd rest = CHR ''.''
              \<and> (tl rest = [] \<or> hd (tl rest) = CHR ''/'') then
        \<comment> \<open>.. element: remove to last /\<close>
        (if length out > dotdot then
           \<comment> \<open>can backtrack\<close>
           (tl rest, take (backtrack out dotdot (length out - 1)) out, dotdot)
         else if \<not> rooted then
           \<comment> \<open>cannot backtrack, but not rooted, so append .. element\<close>
           (let out' = (if length out > 0 then out @ ''/'' else out) @ ''..''
            in (tl rest, out', length out'))
         else (tl rest, out, dotdot))
      else
        \<comment> \<open>real path element: add slash if needed, copy element\<close>
        (let out' = (if rooted \<and> length out \<noteq> 1 \<or> \<not> rooted \<and> length out \<noteq> 0
                     then out @ ''/'' else out)
         in (dropWhile (\<lambda>x. x \<noteq> CHR ''/'') rest,
             out' @ c # takeWhile (\<lambda>x. x \<noteq> CHR ''/'') rest, dotdot)))"

lemma Clean_step_shorter:
  "length (fst (Clean_step rooted c rest out dotdot)) \<le> length rest"
  by (simp add: Clean_step_def Let_def length_dropWhile_le)

function Clean_loop :: "bool \<Rightarrow> string \<Rightarrow> string \<Rightarrow> nat \<Rightarrow> string" where
  "Clean_loop rooted [] out dotdot = out"
| "Clean_loop rooted (c # rest) out dotdot =
     (case Clean_step rooted c rest out dotdot of
        (rest', out', dotdot') \<Rightarrow> Clean_loop rooted rest' out' dotdot')"
  by pat_completeness auto
termination
  by (relation "measure (\<lambda>(rooted, rest, out, dotdot). length rest)")
     (simp_all add: less_Suc_eq_le case_prod_unfold Clean_step_shorter)

definition path_Clean :: "string \<Rightarrow> string" where
  "path_Clean p =
     (if p = [] then ''.''
      else
        (let rooted = (hd p = CHR ''/'');
             out = (if rooted then Clean_loop rooted (tl p) ''/'' 1
                    else Clean_loop rooted p [] 0)
         in if out = [] then ''.'' else out))"

text \<open>
  \<^verbatim>\<open>path.Join\<close>: the empty string when all elements are empty. Otherwise \<open>join_buf\<close> is
  the loop over the elements: an element is appended when the buffer or the element is not
  empty, after a slash when the buffer is not empty; the buffer is then cleaned.
\<close>

fun join_buf :: "string \<Rightarrow> string list \<Rightarrow> string" where
  "join_buf buf [] = buf"
| "join_buf buf (e # es) =
     (if length buf > 0 \<or> e \<noteq> []
      then join_buf ((if length buf > 0 then buf @ ''/'' else buf) @ e) es
      else join_buf buf es)"

definition path_Join :: "string list \<Rightarrow> string" where
  "path_Join elem =
     (if sum_list (map length elem) = 0 then [] else path_Clean (join_buf [] elem))"

section \<open>Package net/url\<close>

text \<open>
  The part of \<^verbatim>\<open>net/url\<close> that \<^verbatim>\<open>url.Parse\<close>, \<^verbatim>\<open>(*URL).ResolveReference\<close> and
  \<^verbatim>\<open>(*URL).String\<close> run, function by function, as in the standard library of Go 1.22
  (the client's source uses \<^verbatim>\<open>any\<close>, so Go 1.18 or later).
\<close>

datatype encoding =
    encodePath
  | encodePathSegment
  | encodeHost
  | encodeZone
  | encodeUserPassword
  | encodeQueryComponent
  | encodeFragment

record Userinfo =
  username :: string
  password :: string
  passwordSet :: bool

record URL =
  Scheme :: string
  Opaque :: string
  User :: "Userinfo option"
  Host :: string
  Path :: string
  RawPath :: string
  OmitHost :: bool
  ForceQuery :: bool
  RawQuery :: string
  Fragment :: string
  RawFragment :: string

text \<open>The zero value \<^verbatim>\<open>new(URL)\<close>.\<close>

definition new_URL :: URL where
  "new_URL = \<lparr>Scheme = [], Opaque = [], User = None, Host = [], Path = [], RawPath = [],
     OmitHost = False, ForceQuery = False, RawQuery = [], Fragment = [], RawFragment = []\<rparr>"

definition url_User :: "string \<Rightarrow> Userinfo" where
  "url_User name = \<lparr>username = name, password = [], passwordSet = False\<rparr>"

definition url_UserPassword :: "string \<Rightarrow> string \<Rightarrow> Userinfo" where
  "url_UserPassword name pw = \<lparr>username = name, password = pw, passwordSet = True\<rparr>"

definition ishex :: "char \<Rightarrow> bool" where
  "ishex c = (isDigit c \<or> (97 \<le> byte c \<and> byte c \<le> 102) \<or> (65 \<le> byte c \<and> byte c \<le> 70))"

definition unhex :: "char \<Rightarrow> nat" where
  "unhex c =
     (if isDigit c then byte c - 48
      else if 97 \<le> byte c \<and> byte c \<le> 102 then byte c - 97 + 10
      else if 65 \<le> byte c \<and> byte c \<le> 70 then byte c - 65 + 10
      else 0)"

definition upperhex :: "nat \<Rightarrow> char" where
  "upperhex i = ''0123456789ABCDEF'' ! i"

text \<open>\<^verbatim>\<open>shouldEscape\<close>: whether the byte must be escaped in the given part of a URL.\<close>

definition shouldEscape :: "char \<Rightarrow> encoding \<Rightarrow> bool" where
  "shouldEscape c mode =
     (if isLower c \<or> isUpper c \<or> isDigit c then False
      else if (mode = encodeHost \<or> mode = encodeZone)
              \<and> (c \<in> set ''!$&()*+,;=:[]<>'' \<or> c = CHR 0x27 \<or> c = CHR 0x22) then False
      else if c \<in> set ''-_.~'' then False
      else if c \<in> set ''$&+,/:;=?@'' then
        (case mode of
           encodePath \<Rightarrow> c = CHR ''?''
         | encodePathSegment \<Rightarrow> c \<in> set ''/;,?''
         | encodeUserPassword \<Rightarrow> c \<in> set ''@/?:''
         | encodeQueryComponent \<Rightarrow> True
         | encodeFragment \<Rightarrow> False
         | _ \<Rightarrow> True)
      else if mode = encodeFragment \<and> c \<in> set ''!()*'' then False
      else True)"

text \<open>
  \<^verbatim>\<open>unescape\<close>, first loop: count the \<^verbatim>\<open>%\<close> and check that they are well-formed.
  \<open>pct_check\<close> is the body of \<^verbatim>\<open>case '%'\<close> once two bytes \<open>a\<close>, \<open>b\<close> follow.
\<close>

definition pct_check :: "encoding \<Rightarrow> char \<Rightarrow> char \<Rightarrow> error option" where
  "pct_check mode a b =
     (if \<not> ishex a \<or> \<not> ishex b then Some (EscapeError [CHR ''%'', a, b])
      else if mode = encodeHost \<and> unhex a < 8 \<and> [CHR ''%'', a, b] \<noteq> ''%25''
        then Some (EscapeError [CHR ''%'', a, b])
      else if mode = encodeZone
              \<and> [CHR ''%'', a, b] \<noteq> ''%25''
              \<and> char_of (unhex a * 16 + unhex b) \<noteq> CHR '' ''
              \<and> shouldEscape (char_of (unhex a * 16 + unhex b)) encodeHost
        then Some (EscapeError [CHR ''%'', a, b])
      else None)"

fun unescape_scan :: "encoding \<Rightarrow> string \<Rightarrow> nat \<Rightarrow> bool \<Rightarrow> error + nat \<times> bool" where
  "unescape_scan mode [] n hasPlus = Inr (n, hasPlus)"
| "unescape_scan mode [c] n hasPlus =
     (if c = CHR ''%'' then Inl (EscapeError [c])
      else if c = CHR ''+'' then Inr (n, mode = encodeQueryComponent)
      else if (mode = encodeHost \<or> mode = encodeZone) \<and> byte c < 0x80
              \<and> shouldEscape c encodeHost then Inl (InvalidHostError [c])
      else Inr (n, hasPlus))"
| "unescape_scan mode [c, a] n hasPlus =
     (if c = CHR ''%'' then Inl (EscapeError [c, a])
      else if c = CHR ''+'' then unescape_scan mode [a] n (mode = encodeQueryComponent)
      else if (mode = encodeHost \<or> mode = encodeZone) \<and> byte c < 0x80
              \<and> shouldEscape c encodeHost then Inl (InvalidHostError [c])
      else unescape_scan mode [a] n hasPlus)"
| "unescape_scan mode (c # a # b # s) n hasPlus =
     (if c = CHR ''%'' then
        (case pct_check mode a b of
           Some e \<Rightarrow> Inl e
         | None \<Rightarrow> unescape_scan mode s (n + 1) hasPlus)
      else if c = CHR ''+'' then unescape_scan mode (a # b # s) n (mode = encodeQueryComponent)
      else if (mode = encodeHost \<or> mode = encodeZone) \<and> byte c < 0x80
              \<and> shouldEscape c encodeHost then Inl (InvalidHostError [c])
      else unescape_scan mode (a # b # s) n hasPlus)"

text \<open>
  Second loop: build the result. After the first loop every \<^verbatim>\<open>%\<close> is followed by two
  bytes; the equations for a \<^verbatim>\<open>%\<close> at the end only make the function total.
\<close>

fun unescape_build :: "encoding \<Rightarrow> string \<Rightarrow> string" where
  "unescape_build mode [] = []"
| "unescape_build mode (c # a # b # s) =
     (if c = CHR ''%'' then char_of (unhex a * 16 + unhex b) # unescape_build mode s
      else if c = CHR ''+'' then
        (if mode = encodeQueryComponent then CHR '' '' else CHR ''+'')
          # unescape_build mode (a # b # s)
      else c # unescape_build mode (a # b # s))"
| "unescape_build mode (c # s) =
     (if c = CHR ''%'' then []
      else if c = CHR ''+'' then
        (if mode = encodeQueryComponent then CHR '' '' else CHR ''+'') # unescape_build mode s
      else c # unescape_build mode s)"

definition unescape :: "string \<Rightarrow> encoding \<Rightarrow> error + string" where
  "unescape s mode =
     (case unescape_scan mode s 0 False of
        Inl e \<Rightarrow> Inl e
      | Inr (n, hasPlus) \<Rightarrow>
          if n = 0 \<and> \<not> hasPlus then Inr s else Inr (unescape_build mode s))"

definition escape_byte :: "encoding \<Rightarrow> char \<Rightarrow> string" where
  "escape_byte mode c =
     (if c = CHR '' '' \<and> mode = encodeQueryComponent then ''+''
      else if shouldEscape c mode
        then [CHR ''%'', upperhex (byte c div 16), upperhex (byte c mod 16)]
      else [c])"

definition escape :: "string \<Rightarrow> encoding \<Rightarrow> string" where
  "escape s mode =
     (let spaceCount = length (filter (\<lambda>c. shouldEscape c mode
                          \<and> (c = CHR '' '' \<and> mode = encodeQueryComponent)) s);
          hexCount = length (filter (\<lambda>c. shouldEscape c mode
                          \<and> \<not> (c = CHR '' '' \<and> mode = encodeQueryComponent)) s)
      in if spaceCount = 0 \<and> hexCount = 0 then s else concat (map (escape_byte mode) s))"

definition validEncoded :: "string \<Rightarrow> encoding \<Rightarrow> bool" where
  "validEncoded s mode =
     list_all (\<lambda>c. c \<in> set ''!$&()*+,;=:@[]%'' \<or> c = CHR 0x27 \<or> \<not> shouldEscape c mode) s"

definition setPath :: "URL \<Rightarrow> string \<Rightarrow> error + URL" where
  "setPath u p =
     (case unescape p encodePath of
        Inl err \<Rightarrow> Inl err
      | Inr path \<Rightarrow>
          Inr (u\<lparr>Path := path,
                 RawPath := (if p = escape path encodePath then [] else p)\<rparr>))"

definition EscapedPath :: "URL \<Rightarrow> string" where
  "EscapedPath u =
     (if RawPath u \<noteq> [] \<and> validEncoded (RawPath u) encodePath
         \<and> unescape (RawPath u) encodePath = Inr (Path u) then RawPath u
      else if Path u = ''*'' then ''*''
      else escape (Path u) encodePath)"

definition setFragment :: "URL \<Rightarrow> string \<Rightarrow> error + URL" where
  "setFragment u f =
     (case unescape f encodeFragment of
        Inl err \<Rightarrow> Inl err
      | Inr frag \<Rightarrow>
          Inr (u\<lparr>Fragment := frag,
                 RawFragment := (if f = escape frag encodeFragment then [] else f)\<rparr>))"

definition EscapedFragment :: "URL \<Rightarrow> string" where
  "EscapedFragment u =
     (if RawFragment u \<noteq> [] \<and> validEncoded (RawFragment u) encodeFragment
         \<and> unescape (RawFragment u) encodeFragment = Inr (Fragment u) then RawFragment u
      else escape (Fragment u) encodeFragment)"

text \<open>
  \<^verbatim>\<open>getScheme\<close>: \<open>i\<close> is the loop index and \<open>rest\<close> is \<^verbatim>\<open>rawURL[i:]\<close>. The result is
  the scheme and the text after its colon.
\<close>

fun getScheme_loop :: "string \<Rightarrow> nat \<Rightarrow> string \<Rightarrow> error + string \<times> string" where
  "getScheme_loop rawURL i [] = Inr ([], rawURL)"
| "getScheme_loop rawURL i (c # rest) =
     (if isLower c \<or> isUpper c then getScheme_loop rawURL (i + 1) rest
      else if isDigit c \<or> c \<in> set ''+-.'' then
        (if i = 0 then Inr ([], rawURL) else getScheme_loop rawURL (i + 1) rest)
      else if c = CHR '':'' then
        (if i = 0 then Inl (ErrorString ''missing protocol scheme'')
         else Inr (take i rawURL, rest))
      else Inr ([], rawURL))"

definition getScheme :: "string \<Rightarrow> error + string \<times> string" where
  "getScheme rawURL = getScheme_loop rawURL 0 rawURL"

definition stringContainsCTLByte :: "string \<Rightarrow> bool" where
  "stringContainsCTLByte s = list_ex (\<lambda>b. byte b < 32 \<or> byte b = 0x7f) s"

definition validOptionalPort :: "string \<Rightarrow> bool" where
  "validOptionalPort port =
     (case port of
        [] \<Rightarrow> True
      | c # ds \<Rightarrow> c = CHR '':'' \<and> list_all isDigit ds)"

definition validUserinfo :: "string \<Rightarrow> bool" where
  "validUserinfo s =
     list_all (\<lambda>r. isUpper r \<or> isLower r \<or> isDigit r
                  \<or> r \<in> set ''-._:~!$&()*+,;=%@'' \<or> r = CHR 0x27) s"

text \<open>
  \<^verbatim>\<open>parseHost\<close>: the host, with an optional port, or an IP literal in brackets. As in
  Go 1.22, what stands between the brackets is not checked to be an address, and only the
  text after the last colon is checked to be a port; later releases reject more hosts
  (\<^verbatim>\<open>http://[example]/\<close>, \<^verbatim>\<open>http://localhost:80:80/\<close>).
\<close>

definition parseHost :: "string \<Rightarrow> error + string" where
  "parseHost host =
     (if strings_HasPrefix host ''['' then
        (case strings_LastIndex host '']'' of
           None \<Rightarrow> Inl (ErrorString ''missing ']' in host'')
         | Some i \<Rightarrow>
             if \<not> validOptionalPort (drop (i + 1) host)
             then Inl (InvalidPortError (drop (i + 1) host))
             else
               (case strings_Index (take i host) ''%25'' of
                  Some zone \<Rightarrow>
                    (case unescape (take zone host) encodeHost of
                       Inl err \<Rightarrow> Inl err
                     | Inr host1 \<Rightarrow>
                         (case unescape (drop zone (take i host)) encodeZone of
                            Inl err \<Rightarrow> Inl err
                          | Inr host2 \<Rightarrow>
                              (case unescape (drop i host) encodeHost of
                                 Inl err \<Rightarrow> Inl err
                               | Inr host3 \<Rightarrow> Inr (host1 @ host2 @ host3))))
                | None \<Rightarrow> unescape host encodeHost))
      else
        (case strings_LastIndex host '':'' of
           Some i \<Rightarrow>
             if \<not> validOptionalPort (drop i host) then Inl (InvalidPortError (drop i host))
             else unescape host encodeHost
         | None \<Rightarrow> unescape host encodeHost))"

text \<open>
  \<^verbatim>\<open>parseAuthority\<close>: the host is parsed first, then the user information before the
  last \<^verbatim>\<open>@\<close>, which \<open>parseUserinfo\<close> holds.
\<close>

definition parseUserinfo :: "string \<Rightarrow> error + Userinfo" where
  "parseUserinfo userinfo =
     (if \<not> validUserinfo userinfo then Inl (ErrorString ''net/url: invalid userinfo'')
      else if \<not> strings_Contains userinfo '':'' then
        (case unescape userinfo encodeUserPassword of
           Inl err \<Rightarrow> Inl err
         | Inr name \<Rightarrow> Inr (url_User name))
      else
        (case strings_Cut userinfo '':'' of
           (name0, pw0, _) \<Rightarrow>
             (case unescape name0 encodeUserPassword of
                Inl err \<Rightarrow> Inl err
              | Inr name \<Rightarrow>
                  (case unescape pw0 encodeUserPassword of
                     Inl err \<Rightarrow> Inl err
                   | Inr pw \<Rightarrow> Inr (url_UserPassword name pw)))))"

definition parseAuthority :: "string \<Rightarrow> error + Userinfo option \<times> string" where
  "parseAuthority authority =
     (case strings_LastIndex authority ''@'' of
        None \<Rightarrow>
          (case parseHost authority of
             Inl err \<Rightarrow> Inl err
           | Inr host \<Rightarrow> Inr (None, host))
      | Some i \<Rightarrow>
          (case parseHost (drop (i + 1) authority) of
             Inl err \<Rightarrow> Inl err
           | Inr host \<Rightarrow>
               (case parseUserinfo (take i authority) of
                  Inl err \<Rightarrow> Inl err
                | Inr user \<Rightarrow> Inr (Some user, host))))"

text \<open>
  \<^verbatim>\<open>parse\<close>: scheme, query, then either an opaque rest, or authority and path.
  \<open>parse_query\<close> is the step that splits the query off; \<open>parse_authority\<close> the step
  that reads \<^verbatim>\<open>//authority\<close>.
\<close>

definition parse_query :: "URL \<Rightarrow> string \<Rightarrow> URL \<times> string" where
  "parse_query url rest =
     (if strings_HasSuffix rest ''?'' \<and> strings_Count rest (CHR ''?'') = 1
      then (url\<lparr>ForceQuery := True\<rparr>, take (length rest - 1) rest)
      else (case strings_Cut rest ''?'' of
              (rest', query, _) \<Rightarrow> (url\<lparr>RawQuery := query\<rparr>, rest')))"

definition parse_authority :: "URL \<Rightarrow> bool \<Rightarrow> string \<Rightarrow> error + URL \<times> string" where
  "parse_authority url viaRequest rest =
     (if (Scheme url \<noteq> [] \<or> \<not> viaRequest \<and> \<not> strings_HasPrefix rest ''///'')
         \<and> strings_HasPrefix rest ''//'' then
        (let authority0 = drop 2 rest;
             authority = (case strings_Index authority0 ''/'' of
                            Some i \<Rightarrow> take i authority0 | None \<Rightarrow> authority0);
             rest' = (case strings_Index authority0 ''/'' of
                        Some i \<Rightarrow> drop i authority0 | None \<Rightarrow> [])
         in case parseAuthority authority of
              Inl err \<Rightarrow> Inl err
            | Inr (user, host) \<Rightarrow> Inr (url\<lparr>User := user, Host := host\<rparr>, rest'))
      else if Scheme url \<noteq> [] \<and> strings_HasPrefix rest ''/'' then
        Inr (url\<lparr>OmitHost := True\<rparr>, rest)
      else Inr (url, rest))"

definition parse :: "string \<Rightarrow> bool \<Rightarrow> error + URL" where
  "parse rawURL viaRequest =
     (if stringContainsCTLByte rawURL
        then Inl (ErrorString ''net/url: invalid control character in URL'')
      else if rawURL = [] \<and> viaRequest then Inl (ErrorString ''empty url'')
      else if rawURL = ''*'' then Inr (new_URL\<lparr>Path := ''*''\<rparr>)
      else
        (case getScheme rawURL of
           Inl err \<Rightarrow> Inl err
         | Inr (scheme, rest0) \<Rightarrow>
             (case parse_query (new_URL\<lparr>Scheme := strings_ToLower scheme\<rparr>) rest0 of
                (url, rest) \<Rightarrow>
                  if \<not> strings_HasPrefix rest ''/'' \<and> Scheme url \<noteq> [] then
                    \<comment> \<open>rootless paths are opaque\<close>
                    Inr (url\<lparr>Opaque := rest\<rparr>)
                  else if \<not> strings_HasPrefix rest ''/'' \<and> viaRequest then
                    Inl (ErrorString ''invalid URI for request'')
                  else if \<not> strings_HasPrefix rest ''/''
                          \<and> strings_Contains (fst (strings_Cut rest ''/'')) '':'' then
                    Inl (ErrorString ''first path segment in URL cannot contain colon'')
                  else
                    (case parse_authority url viaRequest rest of
                       Inl err \<Rightarrow> Inl err
                     | Inr (url', rest') \<Rightarrow> setPath url' rest'))))"

text \<open>\<^verbatim>\<open>url.Parse\<close>: cut off the fragment, parse the rest, then set the fragment.\<close>

definition url_Parse :: "string \<Rightarrow> error + URL" where
  "url_Parse rawURL =
     (case strings_Cut rawURL ''#'' of
        (u, frag, _) \<Rightarrow>
          (case parse u False of
             Inl err \<Rightarrow> Inl (UrlError ''parse'' u err)
           | Inr url \<Rightarrow>
               if frag = [] then Inr url
               else
                 (case setFragment url frag of
                    Inl err \<Rightarrow> Inl (UrlError ''parse'' rawURL err)
                  | Inr url' \<Rightarrow> Inr url')))"

definition Userinfo_String :: "Userinfo \<Rightarrow> string" where
  "Userinfo_String u =
     escape (username u) encodeUserPassword
       @ (if passwordSet u then '':'' @ escape (password u) encodeUserPassword else [])"

text \<open>\<^verbatim>\<open>(*URL).String\<close>; \<open>buf\<close> is the \<^verbatim>\<open>strings.Builder\<close>.\<close>

definition URL_String :: "URL \<Rightarrow> string" where
  "URL_String u =
     (let buf0 = (if Scheme u \<noteq> [] then Scheme u @ '':'' else []);
          buf1 =
            (if Opaque u \<noteq> [] then buf0 @ Opaque u
             else
               (let buf2 =
                      (if Scheme u \<noteq> [] \<or> Host u \<noteq> [] \<or> User u \<noteq> None then
                         (if OmitHost u \<and> Host u = [] \<and> User u = None then buf0
                          else
                            buf0
                              @ (if Host u \<noteq> [] \<or> Path u \<noteq> [] \<or> User u \<noteq> None
                                 then ''//'' else [])
                              @ (case User u of
                                   Some ui \<Rightarrow> Userinfo_String ui @ ''@''
                                 | None \<Rightarrow> [])
                              @ (if Host u \<noteq> [] then escape (Host u) encodeHost else []))
                       else buf0);
                    path = EscapedPath u;
                    buf3 = (if path \<noteq> [] \<and> hd path \<noteq> CHR ''/'' \<and> Host u \<noteq> []
                            then buf2 @ ''/'' else buf2);
                    buf4 = (if buf3 = []
                               \<and> strings_Contains (fst (strings_Cut path ''/'')) '':''
                            then buf3 @ ''./'' else buf3)
                in buf4 @ path));
          buf5 = (if ForceQuery u \<or> RawQuery u \<noteq> [] then buf1 @ ''?'' @ RawQuery u else buf1)
      in if Fragment u \<noteq> [] then buf5 @ ''#'' @ EscapedFragment u else buf5)"

text \<open>
  \<^verbatim>\<open>resolvePath\<close>: the loop cuts \<open>remaining\<close> at each slash. \<open>resolve_elem\<close> is the body of
  the loop on one element, with the builder \<open>dst\<close> and the flag \<open>first\<close>.
\<close>

definition resolve_elem :: "string \<Rightarrow> string \<Rightarrow> bool \<Rightarrow> string \<times> bool" where
  "resolve_elem elem dst first =
     (if elem = ''.'' then (dst, False)
      else if elem = ''..'' then
        (let str = tl dst in
           case strings_LastIndex str ''/'' of
             None \<Rightarrow> (''/'', True)
           | Some index \<Rightarrow> (''/'' @ take index str, first))
      else ((if \<not> first then dst @ ''/'' else dst) @ elem, False))"

lemma length_tl_dropWhile:
  "x \<in> set xs \<Longrightarrow> length (dropWhile P xs) - Suc 0 < length xs"
  using length_dropWhile_le [of P xs] by (cases xs) auto

function resolve_loop :: "string \<Rightarrow> string \<Rightarrow> bool \<Rightarrow> string \<times> string" where
  "resolve_loop remaining dst first =
     (let elem = takeWhile (\<lambda>x. x \<noteq> CHR ''/'') remaining;
          after = dropWhile (\<lambda>x. x \<noteq> CHR ''/'') remaining
      in if after = [] then (fst (resolve_elem elem dst first), elem)
         else resolve_loop (tl after) (fst (resolve_elem elem dst first))
                (snd (resolve_elem elem dst first)))"
  by pat_completeness auto
termination
  by (relation "measure (\<lambda>(remaining, dst, first). length remaining)")
     (simp_all add: length_tl_dropWhile)

declare resolve_loop.simps [simp del]

definition resolvePath :: "string \<Rightarrow> string \<Rightarrow> string" where
  "resolvePath base ref =
     (let full = (if ref = [] then base
                  else if hd ref \<noteq> CHR ''/'' then
                    (case strings_LastIndex base ''/'' of
                       Some i \<Rightarrow> take (i + 1) base @ ref
                     | None \<Rightarrow> ref)
                  else ref)
      in if full = [] then []
         else
           (case resolve_loop full ''/'' True of
              (dst, elem) \<Rightarrow>
                (let r = (if elem = ''.'' \<or> elem = ''..'' then dst @ ''/'' else dst)
                 in if length r > 1 \<and> r ! 1 = CHR ''/'' then tl r else r)))"

text \<open>
  \<^verbatim>\<open>(*URL).ResolveReference\<close>. The error of \<^verbatim>\<open>setPath\<close> is ignored there; \<open>setPath'\<close>
  leaves the URL as it is when \<^verbatim>\<open>setPath\<close> fails.
\<close>

definition setPath' :: "URL \<Rightarrow> string \<Rightarrow> URL" where
  "setPath' u p = (case setPath u p of Inl err \<Rightarrow> u | Inr u' \<Rightarrow> u')"

definition ResolveReference :: "URL \<Rightarrow> URL \<Rightarrow> URL" where
  "ResolveReference u ref =
     (let url = (if Scheme ref = [] then ref\<lparr>Scheme := Scheme u\<rparr> else ref)
      in if Scheme ref \<noteq> [] \<or> Host ref \<noteq> [] \<or> User ref \<noteq> None then
           \<comment> \<open>the absoluteURI or net_path cases\<close>
           setPath' url (resolvePath (EscapedPath ref) [])
         else if Opaque ref \<noteq> [] then
           url\<lparr>User := None, Host := [], Path := []\<rparr>
         else
           (let url1 =
                  (if Path ref = [] \<and> \<not> ForceQuery ref \<and> RawQuery ref = [] then
                     (if Fragment ref = [] then
                        url\<lparr>RawQuery := RawQuery u, Fragment := Fragment u,
                             RawFragment := RawFragment u\<rparr>
                      else url\<lparr>RawQuery := RawQuery u\<rparr>)
                   else url)
            in if Path ref = [] \<and> Opaque u \<noteq> [] then
                 url1\<lparr>Opaque := Opaque u, User := None, Host := [], Path := []\<rparr>
               else
                 \<comment> \<open>the abs_path or rel_path cases\<close>
                 setPath' (url1\<lparr>Host := Host u, User := User u\<rparr>)
                   (resolvePath (EscapedPath u) (EscapedPath ref))))"

section \<open>Package net/http: requests, responses, headers\<close>

text \<open>
  A response body is an \<^verbatim>\<open>io.ReadCloser\<close>: a stream that delivers the bytes \<open>unread\<close>
  and then ends, with \<^verbatim>\<open>io.EOF\<close> (\<open>readErr = None\<close>) or with a read error, and that can be
  closed. \<^verbatim>\<open>ioutil.ReadAll\<close> returns the bytes read and the error, if any; reading a
  closed body fails.
\<close>

record Body =
  unread :: string
  readErr :: "error option"
  closed :: bool

record Response =
  StatusCode :: int
  Body :: Body

definition ioutil_ReadAll :: "Body \<Rightarrow> string \<times> error option \<times> Body" where
  "ioutil_ReadAll b =
     (if closed b then ([], Some (ErrorString ''http: read on closed response body''), b)
      else (unread b, readErr b, b\<lparr>unread := []\<rparr>))"

definition Body_Close :: "Body \<Rightarrow> Body" where
  "Body_Close b = b\<lparr>closed := True\<rparr>"

text \<open>
  A request, with the fields that \<^verbatim>\<open>http.NewRequestWithContext\<close> fills from its
  arguments. \<open>ReqBody\<close> is the payload (\<open>None\<close> for no body), \<open>ReqHost\<close> the field
  \<^verbatim>\<open>Host\<close>. The context is of any type \<open>'ctx\<close>; a nil context is \<open>None\<close>.
\<close>

record 'ctx Request =
  ctx :: 'ctx
  Method :: string
  URL :: URL
  Header :: "string \<rightharpoonup> string list"
  ReqBody :: "string option"
  ContentLength :: nat
  ReqHost :: string

text \<open>The token bytes of \<^verbatim>\<open>httpguts.IsTokenRune\<close>, which header names and methods are made of.\<close>

definition isToken :: "char \<Rightarrow> bool" where
  "isToken c =
     (isLower c \<or> isUpper c \<or> isDigit c \<or> c \<in> set ''!#$%&*+-.^_`|~'' \<or> c = CHR 0x27)"

definition validMethod :: "string \<Rightarrow> bool" where
  "validMethod method = (length method > 0 \<and> list_all isToken method)"

definition hasPort :: "string \<Rightarrow> bool" where
  "hasPort s =
     (case strings_LastIndex s '':'' of
        None \<Rightarrow> False
      | Some i \<Rightarrow> (case strings_LastIndex s '']'' of None \<Rightarrow> True | Some j \<Rightarrow> i > j))"

definition removeEmptyPort :: "string \<Rightarrow> string" where
  "removeEmptyPort host = (if hasPort host then strings_TrimSuffix host '':'' else host)"

definition http_NewRequestWithContext ::
  "'ctx option \<Rightarrow> string \<Rightarrow> string \<Rightarrow> string option \<Rightarrow> error + 'ctx Request" where
  "http_NewRequestWithContext ctx0 method0 url body =
     (let method = (if method0 = [] then ''GET'' else method0)
      in if \<not> validMethod method then Inl (InvalidMethodError method)
         else
           (case ctx0 of
              None \<Rightarrow> Inl (ErrorString ''net/http: nil Context'')
            | Some c \<Rightarrow>
                (case url_Parse url of
                   Inl err \<Rightarrow> Inl err
                 | Inr u \<Rightarrow>
                     Inr \<lparr>ctx = c, Method = method,
                          URL = u\<lparr>Host := removeEmptyPort (Host u)\<rparr>,
                          Header = Map.empty,
                          ReqBody = body,
                          ContentLength = (case body of None \<Rightarrow> 0 | Some b \<Rightarrow> length b),
                          ReqHost = removeEmptyPort (Host u)\<rparr>)))"

text \<open>
  \<^verbatim>\<open>Header.Set\<close> stores the value under the canonical form of the key
  (\<^verbatim>\<open>textproto.CanonicalMIMEHeaderKey\<close>): a key with a byte that is not a token byte is
  left as it is; otherwise the first letter and every letter after a hyphen are upper case
  and the others lower case.
\<close>

definition toUpperByte :: "char \<Rightarrow> char" where
  "toUpperByte c = (if isLower c then char_of (byte c - 32) else c)"

fun canonical :: "bool \<Rightarrow> string \<Rightarrow> string" where
  "canonical upper [] = []"
| "canonical upper (c # s) =
     (if upper then toUpperByte c else toLowerByte c) # canonical (c = CHR ''-'') s"

definition CanonicalMIMEHeaderKey :: "string \<Rightarrow> string" where
  "CanonicalMIMEHeaderKey s = (if list_all isToken s then canonical True s else s)"

definition Header_Set :: "'ctx Request \<Rightarrow> string \<Rightarrow> string \<Rightarrow> 'ctx Request" where
  "Header_Set req key v = req\<lparr>Header := (Header req)(CanonicalMIMEHeaderKey key \<mapsto> [v])\<rparr>"

section \<open>The REST client\<close>

text \<open>
  A call either returns or panics (a nil pointer dereference); a panic is a result here.
\<close>

datatype 'a outcome = Panics | Returns 'a

text \<open>
  The hooks and the transport are function values; a nil function or pointer is \<open>None\<close>.
  A hook receives pointers: what it does to the request is the request it returns.
  The transport is the method \<^verbatim>\<open>Do\<close> of the \<^verbatim>\<open>*http.Client\<close>, a function of the request.
\<close>

type_synonym 'ctx PrepareRequestFunction = "'ctx Request \<Rightarrow> 'ctx Request \<times> error option"

type_synonym 'ctx ErrorHandlingFunction =
  "error option \<Rightarrow> 'ctx Request \<Rightarrow> Response option
     \<Rightarrow> (Response option \<times> error option) outcome"

type_synonym 'ctx http_Client = "'ctx Request \<Rightarrow> Response option \<times> error option"

text \<open>
  \<^verbatim>\<open>type restClient struct\<close>. Only \<^verbatim>\<open>NewRestClient\<close> builds one, with the parsed base
  URL, so \<open>baseURL\<close> is a URL and not a pointer that may be nil.
\<close>

record 'ctx restClient =
  baseURL :: URL
  prepareFunc :: "'ctx PrepareRequestFunction option"
  handleErrorFunc :: "'ctx ErrorHandlingFunction option"
  httpClient :: "'ctx http_Client option"

text \<open>
  \<^verbatim>\<open>type Option func(client *restClient) error\<close>: the client as the option leaves it,
  and the error.
\<close>

type_synonym 'ctx Option = "'ctx restClient \<Rightarrow> 'ctx restClient \<times> error option"

definition WithPrepareRequestFunc :: "'ctx PrepareRequestFunction option \<Rightarrow> 'ctx Option" where
  "WithPrepareRequestFunc f = (\<lambda>c. (c\<lparr>prepareFunc := f\<rparr>, None))"

definition WithErrorHandlingFunc :: "'ctx ErrorHandlingFunction option \<Rightarrow> 'ctx Option" where
  "WithErrorHandlingFunc f = (\<lambda>c. (c\<lparr>handleErrorFunc := f\<rparr>, None))"

definition WithHTTPClient :: "'ctx http_Client option \<Rightarrow> 'ctx Option" where
  "WithHTTPClient h = (\<lambda>c. (c\<lparr>httpClient := h\<rparr>, None))"

definition ErrBadStatusCode :: error where
  "ErrBadStatusCode = Fundamental ''bad status code''"

text \<open>
  \<^verbatim>\<open>defaultErrorHandler\<close>. The deferred \<^verbatim>\<open>res.Body.Close()\<close> runs on both returns; the
  response returned is the response with its body read and closed.
\<close>

definition defaultErrorHandler :: "'ctx ErrorHandlingFunction" where
  "defaultErrorHandler err0 req res =
     (let err = (case err0 of None \<Rightarrow> ErrBadStatusCode | Some e \<Rightarrow> e)
      in case res of
           None \<Rightarrow> Panics
         | Some r \<Rightarrow>
             (case ioutil_ReadAll (Body r) of
                (body, err2, b) \<Rightarrow>
                  if err2 \<noteq> None then
                    Returns (Some (r\<lparr>Body := Body_Close b\<rparr>),
                      errors_Wrap (Some err) (''response code: '' @ fmt_d (StatusCode r)))
                  else
                    Returns (Some (r\<lparr>Body := Body_Close b\<rparr>),
                      errors_Wrap (Some err)
                        (''response code: '' @ fmt_d (StatusCode r)
                           @ '', body:'' @ [CHR 0x0A] @ body))))"

text \<open>
  \<^verbatim>\<open>NewRestClient\<close>; \<open>applyOptions\<close> is its loop over \<^verbatim>\<open>opts\<close>. \<open>DefaultClient\<close> is
  \<^verbatim>\<open>http.DefaultClient\<close>.
\<close>

fun applyOptions :: "'ctx Option list \<Rightarrow> 'ctx restClient \<Rightarrow> error + 'ctx restClient" where
  "applyOptions [] c = Inr c"
| "applyOptions (opt # opts) c =
     (case opt c of
        (c', Some err) \<Rightarrow> Inl err
      | (c', None) \<Rightarrow> applyOptions opts c')"

definition NewRestClient ::
  "'ctx http_Client \<Rightarrow> string \<Rightarrow> 'ctx Option list \<Rightarrow> error + 'ctx restClient" where
  "NewRestClient DefaultClient baseURL0 opts =
     (case url_Parse baseURL0 of
        Inl err \<Rightarrow> Inl (WrapError ''invalid url: '' err)
      | Inr u \<Rightarrow>
          (case applyOptions opts
                  \<lparr>baseURL = u, prepareFunc = None, handleErrorFunc = None,
                   httpClient = None\<rparr> of
             Inl err \<Rightarrow> Inl err
           | Inr c \<Rightarrow>
               (let c1 = (if httpClient c = None
                          then c\<lparr>httpClient := Some DefaultClient\<rparr> else c);
                    c2 = (if handleErrorFunc c1 = None
                          then c1\<lparr>handleErrorFunc := Some defaultErrorHandler\<rparr> else c1)
                in Inr c2)))"

text \<open>
  \<^verbatim>\<open>NewRequest\<close>. \<open>enc\<close> is \<^verbatim>\<open>json.NewEncoder(buf).Encode\<close>: the bytes it writes for a
  body, or its error. A nil \<^verbatim>\<open>body\<close> is \<open>None\<close>.
\<close>

definition NewRequest ::
  "('b \<Rightarrow> error + string) \<Rightarrow> 'ctx restClient \<Rightarrow> 'ctx option \<Rightarrow> string \<Rightarrow> string
     \<Rightarrow> 'b option \<Rightarrow> error + 'ctx Request" where
  "NewRequest enc c ctx0 method relPath body =
     (case url_Parse (path_Join [Path (baseURL c), relPath]) of
        Inl err \<Rightarrow> Inl (WrapError ''error parsing path: '' err)
      | Inr rel \<Rightarrow>
          (let u = ResolveReference (baseURL c) rel
           in case (case body of
                      None \<Rightarrow> Inr None
                    | Some b \<Rightarrow> (case enc b of Inl err \<Rightarrow> Inl err | Inr buf \<Rightarrow> Inr (Some buf))) of
                Inl err \<Rightarrow> Inl err
              | Inr buf \<Rightarrow>
                  (case http_NewRequestWithContext ctx0 method (URL_String u) buf of
                     Inl err \<Rightarrow> Inl err
                   | Inr req0 \<Rightarrow>
                       (let req1 = (if body \<noteq> None
                                    then Header_Set req0 ''Content-Type'' ''application/json''
                                    else req0);
                            req = Header_Set req1 ''Accept'' ''application/json''
                        in case prepareFunc c of
                             None \<Rightarrow> Inr req
                           | Some f \<Rightarrow>
                               (case f req of
                                  (req', Some err) \<Rightarrow> Inl err
                                | (req', None) \<Rightarrow> Inr req')))))"

text \<open>
  \<^verbatim>\<open>DoRequest\<close>. \<open>dec\<close> is \<^verbatim>\<open>json.NewDecoder(res.Body).Decode\<close>: from the body and the
  destination, the body as the decoder leaves it, the destination as it fills it, and its
  error. A nil \<^verbatim>\<open>respDest\<close> is \<open>None\<close>. The result is the pair returned, and the
  destination.
\<close>

definition DoRequest ::
  "(Body \<Rightarrow> 'd \<Rightarrow> Body \<times> 'd \<times> error option) \<Rightarrow> 'ctx restClient \<Rightarrow> 'ctx Request
     \<Rightarrow> 'd option \<Rightarrow> ((Response option \<times> error option) \<times> 'd option) outcome" where
  "DoRequest dec c req respDest =
     (case httpClient c of
        None \<Rightarrow> Panics
      | Some client \<Rightarrow>
          (case client req of
             (res, Some err) \<Rightarrow> Returns ((res, Some err), respDest)
           | (None, None) \<Rightarrow> Panics
           | (Some r, None) \<Rightarrow>
               (let decoded =
                      (case respDest of
                         None \<Rightarrow> Returns ((Some r, None), None)
                       | Some d \<Rightarrow>
                           (case dec (Body r) d of
                              (b, d', Some err) \<Rightarrow>
                                Returns ((Some (r\<lparr>Body := b\<rparr>),
                                          Some (WrapError ''error unmarshalling response: '' err)),
                                         Some d')
                            | (b, d', None) \<Rightarrow>
                                Returns ((Some (r\<lparr>Body := b\<rparr>), None), Some d')))
                in if StatusCode r \<ge> 400 then
                     (case handleErrorFunc c of
                        Some h \<Rightarrow>
                          (case h None req (Some r) of
                             Panics \<Rightarrow> Panics
                           | Returns x \<Rightarrow> Returns (x, respDest))
                      | None \<Rightarrow> decoded)
                   else decoded)))"

definition GetBaseURL :: "'ctx restClient \<Rightarrow> URL" where
  "GetBaseURL c = baseURL c"

section \<open>Applying options in order\<close>

text \<open>
  What the specification says of the options, to compare with the loop \<open>applyOptions\<close>:
  \<open>apply_in_order opts c\<close> is the client after each option has been applied in order,
  and \<open>all_succeed opts c\<close> says that each option, applied to the client that the options
  before it have left, returns no error. \<open>new_restClient u\<close> is the client before the
  options, \<open>with_defaults\<close> the substitution of the defaults after them.
\<close>

definition apply_in_order :: "'ctx Option list \<Rightarrow> 'ctx restClient \<Rightarrow> 'ctx restClient" where
  "apply_in_order opts c = foldl (\<lambda>c' opt. fst (opt c')) c opts"

definition all_succeed :: "'ctx Option list \<Rightarrow> 'ctx restClient \<Rightarrow> bool" where
  "all_succeed opts c =
     list_all (\<lambda>i. snd ((opts ! i) (apply_in_order (take i opts) c)) = None) [0..<length opts]"

definition new_restClient :: "URL \<Rightarrow> 'ctx restClient" where
  "new_restClient u = \<lparr>baseURL = u, prepareFunc = None, handleErrorFunc = None, httpClient = None\<rparr>"

definition with_defaults :: "'ctx http_Client \<Rightarrow> 'ctx restClient \<Rightarrow> 'ctx restClient" where
  "with_defaults dflt c =
     c\<lparr>httpClient := (case httpClient c of None \<Rightarrow> Some dflt | Some h \<Rightarrow> Some h),
       handleErrorFunc := (case handleErrorFunc c of None \<Rightarrow> Some defaultErrorHandler | Some h \<Rightarrow> Some h)\<rparr>"

section \<open>Example values\<close>

text \<open>
  The values of the scenarios: the base URL \<^verbatim>\<open>https://api.example.com/v1/\<close> as
  \<^verbatim>\<open>url.Parse\<close> returns it, a response with status 404 and body \<^verbatim>\<open>not found\<close>, the same
  response once read and closed, a transport that answers every request with it, a request,
  and the client that \<^verbatim>\<open>NewRestClient\<close> builds for them with no option.
\<close>

definition example_base :: URL where
  "example_base = \<lparr>Scheme = ''https'', Opaque = [], User = None, Host = ''api.example.com'',
     Path = ''/v1/'', RawPath = [], OmitHost = False, ForceQuery = False,
     RawQuery = [], Fragment = [], RawFragment = []\<rparr>"

definition not_found :: Response where
  "not_found = \<lparr>StatusCode = 404, Body = \<lparr>unread = ''not found'', readErr = None, closed = False\<rparr>\<rparr>"

definition not_found_closed :: Response where
  "not_found_closed = \<lparr>StatusCode = 404, Body = \<lparr>unread = [], readErr = None, closed = True\<rparr>\<rparr>"

definition example_transport :: "unit http_Client" where
  "example_transport = (\<lambda>req. (Some not_found, None))"

definition example_request :: "unit Request" where
  "example_request = \<lparr>ctx = (), Method = ''GET'', URL = example_base\<lparr>Path := ''/v1/widgets''\<rparr>,
      Header = [''Accept'' \<mapsto> [''application/json'']], ReqBody = None, ContentLength = 0,
      ReqHost = ''api.example.com''\<rparr>"

definition example_client :: "unit restClient" where
  "example_client = \<lparr>baseURL = example_base, prepareFunc = None,
      handleErrorFunc = Some defaultErrorHandler, httpClient = Some example_transport\<rparr>"

section \<open>Base URLs and relative paths whose join is the target\<close>

text \<open>
  The base URLs and relative paths for which the target URL is the base URL with the joined
  path. A path byte is a byte that \<^verbatim>\<open>net/url\<close> neither escapes in a path nor reads as the
  start of an escape, a query or a fragment: an ASCII letter or digit or one of
  \<^verbatim>\<open>- _ . ~ $ & + , / : ; = @\<close>. A relative path is any string of path bytes. A base
  URL has a scheme (a lower-case letter, then lower-case letters, digits, \<^verbatim>\<open>+\<close>, \<^verbatim>\<open>-\<close>,
  \<^verbatim>\<open>.\<close>), no opaque part and no user information, a host that is a name of letters,
  digits and \<^verbatim>\<open>- _ . ~\<close> with an optional port \<^verbatim>\<open>:digits\<close>, and a path of path bytes
  that is empty or begins with a slash. Its query and fragment are free. The join is
  rooted (\<open>rooted_join\<close>) when the base path begins with a slash, or is empty while the
  relative path begins with a slash.
\<close>

definition pathByte :: "char \<Rightarrow> bool" where
  "pathByte c = (isLower c \<or> isUpper c \<or> isDigit c \<or> c \<in> set ''-_.~$&+,/:;=@'')"

definition hostByte :: "char \<Rightarrow> bool" where
  "hostByte c = (isLower c \<or> isUpper c \<or> isDigit c \<or> c \<in> set ''-_.~'')"

definition schemeByte :: "char \<Rightarrow> bool" where
  "schemeByte c = (isLower c \<or> isDigit c \<or> c \<in> set ''+-.'')"

definition schemeOK :: "string \<Rightarrow> bool" where
  "schemeOK sc = (sc \<noteq> [] \<and> isLower (hd sc) \<and> list_all schemeByte sc)"

definition simple_host :: "string \<Rightarrow> bool" where
  "simple_host h =
     (let name = takeWhile (\<lambda>c. c \<noteq> CHR '':'') h;
          port = dropWhile (\<lambda>c. c \<noteq> CHR '':'') h
      in name \<noteq> [] \<and> list_all hostByte name
         \<and> (port = [] \<or> tl port \<noteq> [] \<and> list_all isDigit (tl port)))"

definition simple_base :: "URL \<Rightarrow> bool" where
  "simple_base u =
     (schemeOK (Scheme u) \<and> Opaque u = [] \<and> User u = None \<and> simple_host (Host u)
      \<and> (Path u = [] \<or> hd (Path u) = CHR ''/'') \<and> list_all pathByte (Path u))"

definition rooted_join :: "string \<Rightarrow> string \<Rightarrow> bool" where
  "rooted_join P R = (P \<noteq> [] \<and> hd P = CHR ''/'' \<or> P = [] \<and> R \<noteq> [] \<and> hd R = CHR ''/'')"

text \<open>
  The target: the base URL with the joined path; the query and the fragment of the base URL
  are dropped, as \<^verbatim>\<open>ResolveReference\<close> does for a reference with a path.
\<close>

definition joined_URL :: "URL \<Rightarrow> string \<Rightarrow> URL" where
  "joined_URL base relPath =
     base\<lparr>Path := path_Join [Path base, relPath], RawPath := [], OmitHost := False,
          ForceQuery := False, RawQuery := [], Fragment := [], RawFragment := []\<rparr>"


text \<open>
  The shape of a joined path: a slash, then segments separated by single slashes
  (\<open>render\<close>), where no segment is empty, holds a slash, or is \<^verbatim>\<open>.\<close> or \<^verbatim>\<open>..\<close>
  (\<open>good_seg\<close>).
\<close>

fun joinsegs :: "string list \<Rightarrow> string" where
  "joinsegs [] = []"
| "joinsegs [s] = s"
| "joinsegs (s # t # ts) = s @ ''/'' @ joinsegs (t # ts)"

definition render :: "string list \<Rightarrow> string" where
  "render segs = CHR ''/'' # joinsegs segs"

definition good_seg :: "string \<Rightarrow> bool" where
  "good_seg seg = (seg \<noteq> [] \<and> CHR ''/'' \<notin> set seg \<and> seg \<noteq> ''.'' \<and> seg \<noteq> ''..'')"

section \<open>Construction\<close>

lemma applyOptions_snoc:
  "applyOptions (xs @ [opt]) c =
     (case applyOptions xs c of
        Inl e \<Rightarrow> Inl e
      | Inr c' \<Rightarrow> (case snd (opt c') of Some e \<Rightarrow> Inl e | None \<Rightarrow> Inr (fst (opt c'))))"
  by (induction xs arbitrary: c) (auto split: prod.splits option.splits)

lemma applyOptions_append:
  "applyOptions (xs @ ys) c =
     (case applyOptions xs c of Inl e \<Rightarrow> Inl e | Inr c' \<Rightarrow> applyOptions ys c')"
  by (induction xs arbitrary: c) (auto split: prod.splits option.splits)

lemma all_succeed_snoc:
  "all_succeed (xs @ [opt]) c =
     (all_succeed xs c \<and> snd (opt (apply_in_order xs c)) = None)"
  by (auto simp: all_succeed_def list_all_iff nth_append)

lemma apply_in_order_snoc:
  "apply_in_order (xs @ [opt]) c = fst (opt (apply_in_order xs c))"
  by (simp add: apply_in_order_def)

lemma applyOptions_all_succeed:
  "all_succeed opts c \<Longrightarrow> applyOptions opts c = Inr (apply_in_order opts c)"
proof (induction opts rule: rev_induct)
  case Nil
  show ?case by (simp add: apply_in_order_def)
next
  case (snoc opt xs)
  then show ?case
    by (simp add: all_succeed_snoc applyOptions_snoc apply_in_order_snoc)
qed

lemma applyOptions_first_failure:
  assumes "all_succeed pre c" and "snd (opt (apply_in_order pre c)) = Some err"
  shows "applyOptions (pre @ opt # post) c = Inl err"
  using assms
  by (cases "opt (apply_in_order pre c)")
     (simp add: applyOptions_append applyOptions_all_succeed)

lemma NewRestClient_fields:
  assumes "NewRestClient dflt s opts = Inr c"
  shows "httpClient c \<noteq> None \<and> handleErrorFunc c \<noteq> None"
  using assms
  by (auto simp: NewRestClient_def Let_def split: sum.splits if_splits)

lemma url_Parse_example: "url_Parse ''https://api.example.com/v1/'' = Inr example_base"
  unfolding example_base_def by code_simp

lemma NewRestClient_example:
  "NewRestClient example_transport ''https://api.example.com/v1/'' [] = Inr example_client"
  by (simp add: NewRestClient_def url_Parse_example example_client_def)

text \<open>
  Claim C4. \<^verbatim>\<open>NewRestClient\<close> on a base URL that \<^verbatim>\<open>url.Parse\<close> rejects fails with the
  error \<^verbatim>\<open>invalid url: ...\<close> wrapping the parse error, and returns no client. Otherwise the
  options are applied in order: when the options \<open>pre\<close> succeed and the next option fails
  on the client they have left, construction fails with exactly that error, whatever
  follows; when all options succeed, the client is the one they leave, with the defaults
  substituted.
\<close>

theorem NewRestClient_invalid_url_or_option_error:
  "(url_Parse s = Inl e \<longrightarrow> NewRestClient dflt s opts = Inl (WrapError ''invalid url: '' e))
   \<and> (url_Parse s = Inr u \<longrightarrow> all_succeed pre (new_restClient u)
         \<longrightarrow> snd (opt (apply_in_order pre (new_restClient u))) = Some err
         \<longrightarrow> NewRestClient dflt s (pre @ opt # post) = Inl err)
   \<and> (url_Parse s = Inr u \<longrightarrow> all_succeed opts (new_restClient u)
         \<longrightarrow> NewRestClient dflt s opts
               = Inr (with_defaults dflt (apply_in_order opts (new_restClient u))))"
proof (intro conjI impI)
  assume "url_Parse s = Inl e"
  then show "NewRestClient dflt s opts = Inl (WrapError ''invalid url: '' e)"
    by (simp add: NewRestClient_def)
next
  assume "url_Parse s = Inr u" and "all_succeed pre (new_restClient u)"
    and "snd (opt (apply_in_order pre (new_restClient u))) = Some err"
  then show "NewRestClient dflt s (pre @ opt # post) = Inl err"
    using applyOptions_first_failure [of pre "new_restClient u" opt err post]
    by (simp add: NewRestClient_def new_restClient_def)
next
  assume "url_Parse s = Inr u" and "all_succeed opts (new_restClient u)"
  then show "NewRestClient dflt s opts
               = Inr (with_defaults dflt (apply_in_order opts (new_restClient u)))"
    using applyOptions_all_succeed [of opts "new_restClient u"]
    by (auto simp: NewRestClient_def new_restClient_def with_defaults_def Let_def
             split: option.splits)
qed


theorem NewRestClient_invalid_url_or_option_error_witness:
  "NewRestClient example_transport '':foo'' []
     = Inl (WrapError ''invalid url: ''
              (UrlError ''parse'' '':foo'' (ErrorString ''missing protocol scheme'')))
   \<and> NewRestClient example_transport ''https://api.example.com/v1/''
         [WithHTTPClient None, (\<lambda>c. (c, Some (ErrorString ''rejected''))),
          WithPrepareRequestFunc None]
       = Inl (ErrorString ''rejected'')
   \<and> NewRestClient example_transport ''https://api.example.com/v1/'' [WithHTTPClient None]
       = Inr example_client"
proof -
  have bad: "url_Parse '':foo''
               = Inl (UrlError ''parse'' '':foo'' (ErrorString ''missing protocol scheme''))"
    by code_simp
  have ok: "all_succeed [WithHTTPClient None] (new_restClient example_base :: unit restClient)"
    by (simp add: all_succeed_def apply_in_order_def WithHTTPClient_def)
  have fails: "snd ((\<lambda>c. (c, Some (ErrorString ''rejected'')))
                 (apply_in_order [WithHTTPClient None]
                    (new_restClient example_base :: unit restClient)))
               = Some (ErrorString ''rejected'')"
    by simp
  have c: "with_defaults example_transport
             (apply_in_order [WithHTTPClient None] (new_restClient example_base))
           = example_client"
    by (simp add: with_defaults_def apply_in_order_def WithHTTPClient_def new_restClient_def
          example_client_def)
  note T = NewRestClient_invalid_url_or_option_error
  have 1: "NewRestClient example_transport '':foo'' []
             = Inl (WrapError ''invalid url: ''
                      (UrlError ''parse'' '':foo'' (ErrorString ''missing protocol scheme'')))"
    using T [where s = "'':foo''" and opts = "[]" and dflt = example_transport] bad by simp
  have 2: "NewRestClient example_transport ''https://api.example.com/v1/''
             ([WithHTTPClient None] @ (\<lambda>c. (c, Some (ErrorString ''rejected'')))
                # [WithPrepareRequestFunc None])
           = Inl (ErrorString ''rejected'')"
    using T [where s = "''https://api.example.com/v1/''" and u = example_base
               and pre = "[WithHTTPClient None]" and dflt = example_transport
               and opt = "\<lambda>c. (c, Some (ErrorString ''rejected''))"
               and err = "ErrorString ''rejected''" and post = "[WithPrepareRequestFunc None]"]
      url_Parse_example ok fails by blast
  have 3: "NewRestClient example_transport ''https://api.example.com/v1/'' [WithHTTPClient None]
             = Inr example_client"
    using T [where s = "''https://api.example.com/v1/''" and u = example_base
               and opts = "[WithHTTPClient None]" and dflt = example_transport]
      url_Parse_example ok c by simp
  from 1 2 3 show ?thesis by simp
qed

section \<open>Sending a request\<close>

lemma Error_Wrapped: "Error q (Wrapped e m) = m @ '': '' @ Error q e"
  by (simp add: Wrapped_def)

lemma Cause_Wrapped: "Cause (Wrapped e m) = Cause e"
  by (simp add: Wrapped_def)

lemma fmt_d_404: "fmt_d 404 = ''404''"
  by code_simp

lemma defaultErrorHandler_not_found:
  "defaultErrorHandler None req (Some not_found)
     = Returns (Some not_found_closed,
         Some (Wrapped ErrBadStatusCode
                 (''response code: 404, body:'' @ [CHR 0x0A] @ ''not found'')))"
  by (simp add: defaultErrorHandler_def not_found_def not_found_closed_def ioutil_ReadAll_def
        Body_Close_def fmt_d_404)

text \<open>
  Claim C5. When the transport returns an error, \<^verbatim>\<open>DoRequest\<close> returns that error as it
  is, with the response that the transport returned (nil or not), and leaves the destination
  alone.
\<close>

theorem DoRequest_transport_error:
  assumes "httpClient c = Some client" and "client req = (res, Some err)"
  shows "DoRequest dec c req respDest = Returns ((res, Some err), respDest)"
  using assms by (simp add: DoRequest_def split: option.splits)

theorem DoRequest_transport_error_witness:
  "DoRequest (\<lambda>b d. (b, d, None))
     (example_client\<lparr>httpClient := Some (\<lambda>req. (None, Some (ErrorString ''connection refused'')))\<rparr>)
     example_request (Some (0::nat))
   = Returns ((None, Some (ErrorString ''connection refused'')), Some 0)"
  by (rule DoRequest_transport_error [where client = "\<lambda>req. (None, Some (ErrorString ''connection refused''))"])
     simp_all

text \<open>
  Claim C6. When the transport succeeds with a status below 400, the destination is not
  nil and the decoder fails, \<^verbatim>\<open>DoRequest\<close> returns the error
  \<^verbatim>\<open>error unmarshalling response: ...\<close> that wraps the decoder's error, together with the
  response.
\<close>

theorem DoRequest_decode_error:
  assumes "httpClient c = Some client" and "client req = (Some r, None)"
    and "StatusCode r < 400" and "dec (Body r) d = (b, d', Some e)"
  shows "DoRequest dec c req (Some d)
           = Returns ((Some (r\<lparr>Body := b\<rparr>),
                       Some (WrapError ''error unmarshalling response: '' e)), Some d')
         \<and> Unwrap (WrapError ''error unmarshalling response: '' e) = Some e
         \<and> Error q (WrapError ''error unmarshalling response: '' e)
             = ''error unmarshalling response: '' @ Error q e"
  using assms by (simp add: DoRequest_def)

theorem DoRequest_decode_error_witness:
  "DoRequest (\<lambda>b d. (b\<lparr>unread := []\<rparr>, d, Some (ErrorString ''unexpected end of JSON input'')))
     (example_client\<lparr>httpClient := Some (\<lambda>req. (Some (not_found\<lparr>StatusCode := 200\<rparr>), None))\<rparr>)
     example_request (Some (0::nat))
   = Returns ((Some \<lparr>StatusCode = 200, Body = \<lparr>unread = [], readErr = None, closed = False\<rparr>\<rparr>,
               Some (WrapError ''error unmarshalling response: ''
                       (ErrorString ''unexpected end of JSON input''))), Some 0)"
  using DoRequest_decode_error
    [where c = "example_client\<lparr>httpClient := Some (\<lambda>req. (Some (not_found\<lparr>StatusCode := 200\<rparr>), None))\<rparr>"
       and client = "\<lambda>req. (Some (not_found\<lparr>StatusCode := 200\<rparr>), None)"
       and req = example_request and r = "not_found\<lparr>StatusCode := 200\<rparr>"
       and dec = "\<lambda>b d. (b\<lparr>unread := []\<rparr>, d, Some (ErrorString ''unexpected end of JSON input''))"
       and d = "0::nat" and d' = "0::nat" and b = "\<lparr>unread = [], readErr = None, closed = False\<rparr>"
       and e = "ErrorString ''unexpected end of JSON input''"]
  by (simp add: not_found_def)

text \<open>
  Claim C2. For a client that \<^verbatim>\<open>NewRestClient\<close> has returned, when the transport
  succeeds with a status of 400 or more, \<^verbatim>\<open>DoRequest\<close> returns what the error hook returns
  for a nil error, the request and the response as the transport returned it: the decoder
  \<open>dec\<close> has no part in the result and the destination is as it was. With a nil
  destination the decoder has no part in the result at any status: below 400 the result
  is the response and no error.
\<close>

theorem DoRequest_error_status_calls_hook:
  assumes "NewRestClient dflt s opts = Inr c"
    and "httpClient c = Some client" and "client req = (Some r, None)"
  shows "(400 \<le> StatusCode r \<longrightarrow>
            (\<exists>h. handleErrorFunc c = Some h \<and>
               DoRequest dec c req respDest =
                 (case h None req (Some r) of
                    Panics \<Rightarrow> Panics
                  | Returns x \<Rightarrow> Returns (x, respDest))))
         \<and> (StatusCode r < 400 \<longrightarrow>
               DoRequest dec c req None = Returns ((Some r, None), None))"
  using NewRestClient_fields [OF assms(1)] assms(2,3)
  by (auto simp: DoRequest_def)

theorem DoRequest_error_status_calls_hook_witness:
  "DoRequest (\<lambda>b d. (b, Suc d, None)) example_client example_request (Some 0)
     = Returns ((Some not_found_closed,
                 Some (Wrapped ErrBadStatusCode
                         (''response code: 404, body:'' @ [CHR 0x0A] @ ''not found''))), Some 0)
   \<and> DoRequest (\<lambda>b d. (b, Suc d, None))
        (example_client\<lparr>httpClient := Some (\<lambda>req. (Some (not_found\<lparr>StatusCode := 204\<rparr>), None))\<rparr>)
        example_request (None :: nat option)
     = Returns ((Some (not_found\<lparr>StatusCode := 204\<rparr>), None), None)"
proof -
  have 1: "DoRequest (\<lambda>b d. (b, Suc d, None)) example_client example_request (Some 0)
     = Returns ((Some not_found_closed,
                 Some (Wrapped ErrBadStatusCode
                         (''response code: 404, body:'' @ [CHR 0x0A] @ ''not found''))), Some 0)"
    using DoRequest_error_status_calls_hook
      [OF NewRestClient_example, where client = example_transport and req = example_request
         and r = not_found and dec = "\<lambda>b d. (b, Suc d, None)" and respDest = "Some 0"]
    by (simp add: example_client_def example_transport_def not_found_def
          defaultErrorHandler_not_found [unfolded not_found_def])
  have c: "NewRestClient example_transport ''https://api.example.com/v1/''
             [WithHTTPClient (Some (\<lambda>req. (Some (not_found\<lparr>StatusCode := 204\<rparr>), None)))]
           = Inr (example_client\<lparr>httpClient := Some (\<lambda>req. (Some (not_found\<lparr>StatusCode := 204\<rparr>), None))\<rparr>)"
    by (simp add: NewRestClient_def url_Parse_example example_client_def WithHTTPClient_def)
  have 2: "DoRequest (\<lambda>b d. (b, Suc d, None))
        (example_client\<lparr>httpClient := Some (\<lambda>req. (Some (not_found\<lparr>StatusCode := 204\<rparr>), None))\<rparr>)
        example_request (None :: nat option)
     = Returns ((Some (not_found\<lparr>StatusCode := 204\<rparr>), None), None)"
    using DoRequest_error_status_calls_hook
      [OF c, where client = "\<lambda>req. (Some (not_found\<lparr>StatusCode := 204\<rparr>), None)"
         and req = example_request and r = "not_found\<lparr>StatusCode := 204\<rparr>"
         and dec = "\<lambda>b d. (b, Suc d, None)"]
    by simp
  from 1 2 show ?thesis by simp
qed


section \<open>The default error hook\<close>

text \<open>
  Claim C3. Given a response, the default error hook returns that response, with its body
  closed, and an error that is not nil: the given error, or the sentinel
  \<^verbatim>\<open>ErrBadStatusCode\<close> when the given error is nil, wrapped with a message. For the
  response with status 404 and body \<^verbatim>\<open>not found\<close> the text of the error holds \<^verbatim>\<open>404\<close>
  and \<^verbatim>\<open>not found\<close>, also when the hook runs as the default hook of \<^verbatim>\<open>DoRequest\<close>.
\<close>

theorem defaultErrorHandler_closes_and_wraps:
  "(\<exists>r' e. defaultErrorHandler err req (Some r) = Returns (Some r', Some e)
        \<and> StatusCode r' = StatusCode r \<and> closed (Body r')
        \<and> (\<exists>message. e = Wrapped (case err of None \<Rightarrow> ErrBadStatusCode | Some e0 \<Rightarrow> e0)
                              message))
   \<and> (\<exists>e. DoRequest dec example_client example_request respDest
              = Returns ((Some not_found_closed, Some e), respDest)
          \<and> Cause e = ErrBadStatusCode
          \<and> Error q e = ''response code: 404, body:'' @ [CHR 0x0A]
                           @ ''not found: bad status code''
          \<and> strings_Contains (Error q e) ''404''
          \<and> strings_Contains (Error q e) ''not found'')"
proof (rule conjI)
  show "\<exists>r' e. defaultErrorHandler err req (Some r) = Returns (Some r', Some e)
        \<and> StatusCode r' = StatusCode r \<and> closed (Body r')
        \<and> (\<exists>message. e = Wrapped (case err of None \<Rightarrow> ErrBadStatusCode | Some e0 \<Rightarrow> e0)
                              message)"
    by (cases "ioutil_ReadAll (Body r)")
       (auto simp: defaultErrorHandler_def Body_Close_def Let_def)
next
  let ?e = "Wrapped ErrBadStatusCode
              (''response code: 404, body:'' @ [CHR 0x0A] @ ''not found'')"
  have run: "DoRequest dec example_client example_request respDest
               = Returns ((Some not_found_closed, Some ?e), respDest)"
    using defaultErrorHandler_not_found [of example_request]
    by (simp add: DoRequest_def example_client_def example_transport_def not_found_def)
  have msg: "Error q ?e = ''response code: 404, body:'' @ [CHR 0x0A]
                            @ ''not found: bad status code''"
    by (simp add: ErrBadStatusCode_def Error_Wrapped)
  have c1: "strings_Contains (''response code: 404, body:'' @ [CHR 0x0A]
                                @ ''not found: bad status code'') ''404''"
    by code_simp
  have c2: "strings_Contains (''response code: 404, body:'' @ [CHR 0x0A]
                                @ ''not found: bad status code'') ''not found''"
    by code_simp
  have cause: "Cause ?e = ErrBadStatusCode"
    by (simp add: ErrBadStatusCode_def Cause_Wrapped)
  show "\<exists>e. DoRequest dec example_client example_request respDest
              = Returns ((Some not_found_closed, Some e), respDest)
          \<and> Cause e = ErrBadStatusCode
          \<and> Error q e = ''response code: 404, body:'' @ [CHR 0x0A]
                           @ ''not found: bad status code''
          \<and> strings_Contains (Error q e) ''404''
          \<and> strings_Contains (Error q e) ''not found''"
    using run msg c1 c2 cause by (intro exI [of _ ?e]) (simp only: simp_thms)
qed

text \<open>
  Claim C8. When reading the body fails, the default error hook drops the read error and
  the bytes read: it returns the response, closed, and the original error (the sentinel for
  a nil error) wrapped with the message \<^verbatim>\<open>response code: N\<close> alone.
\<close>

theorem defaultErrorHandler_read_failure:
  assumes "ioutil_ReadAll (Body r) = (body, Some readError, b)"
  shows "defaultErrorHandler err req (Some r)
           = Returns (Some (r\<lparr>Body := Body_Close b\<rparr>),
               Some (Wrapped (case err of None \<Rightarrow> ErrBadStatusCode | Some e \<Rightarrow> e)
                       (''response code: '' @ fmt_d (StatusCode r))))
         \<and> Error q (Wrapped (case err of None \<Rightarrow> ErrBadStatusCode | Some e \<Rightarrow> e)
                      (''response code: '' @ fmt_d (StatusCode r)))
             = ''response code: '' @ fmt_d (StatusCode r) @ '': ''
                 @ Error q (case err of None \<Rightarrow> ErrBadStatusCode | Some e \<Rightarrow> e)"
  using assms by (simp add: defaultErrorHandler_def Error_Wrapped)

theorem defaultErrorHandler_read_failure_witness:
  "defaultErrorHandler None example_request
     (Some \<lparr>StatusCode = 404,
            Body = \<lparr>unread = ''not f'', readErr = Some (ErrorString ''unexpected EOF''),
                    closed = False\<rparr>\<rparr>)
     = Returns (Some \<lparr>StatusCode = 404,
                      Body = \<lparr>unread = [], readErr = Some (ErrorString ''unexpected EOF''),
                              closed = True\<rparr>\<rparr>,
         Some (Wrapped ErrBadStatusCode ''response code: 404''))
   \<and> Error id (Wrapped ErrBadStatusCode ''response code: 404'')
       = ''response code: 404: bad status code''"
  using defaultErrorHandler_read_failure
    [where r = "\<lparr>StatusCode = 404,
                  Body = \<lparr>unread = ''not f'', readErr = Some (ErrorString ''unexpected EOF''),
                          closed = False\<rparr>\<rparr>"
       and body = "''not f''" and readError = "ErrorString ''unexpected EOF''"
       and b = "\<lparr>unread = [], readErr = Some (ErrorString ''unexpected EOF''), closed = False\<rparr>"
       and err = None and req = example_request and q = id]
  by (simp add: ioutil_ReadAll_def Body_Close_def fmt_d_404 ErrBadStatusCode_def Error_Wrapped)

section \<open>The exported options\<close>

lemma applyOptions_exported:
  assumes "set opts \<subseteq> range WithPrepareRequestFunc \<union> range WithErrorHandlingFunc
             \<union> range WithHTTPClient"
  shows "\<exists>c'. applyOptions opts c = Inr c'"
  using assms
proof (induction opts arbitrary: c)
  case Nil
  show ?case by simp
next
  case (Cons opt opts)
  from Cons.prems have "snd (opt c) = None"
    by (auto simp: WithPrepareRequestFunc_def WithErrorHandlingFunc_def WithHTTPClient_def)
  moreover from Cons.prems have "\<exists>c'. applyOptions opts (fst (opt c)) = Inr c'"
    by (intro Cons.IH) auto
  ultimately show ?case by (cases "opt c") auto
qed

text \<open>
  Claim C10. Each of the three exported options returns a nil error; a client that
  \<^verbatim>\<open>NewRestClient\<close> returns has a transport and an error hook that are not nil; and when
  every option is one of the three exported options, \<^verbatim>\<open>NewRestClient\<close> fails only when
  \<^verbatim>\<open>url.Parse\<close> rejects the base URL.
\<close>

theorem exported_options_never_fail:
  "snd (WithPrepareRequestFunc f c) = None
   \<and> snd (WithErrorHandlingFunc g c) = None
   \<and> snd (WithHTTPClient h c) = None
   \<and> (NewRestClient dflt s opts = Inr c' \<longrightarrow> httpClient c' \<noteq> None \<and> handleErrorFunc c' \<noteq> None)
   \<and> (set opts \<subseteq> range WithPrepareRequestFunc \<union> range WithErrorHandlingFunc
                   \<union> range WithHTTPClient
        \<longrightarrow> NewRestClient dflt s opts = Inl e
        \<longrightarrow> (\<exists>e'. url_Parse s = Inl e' \<and> e = WrapError ''invalid url: '' e'))"
proof (intro conjI impI)
  assume "NewRestClient dflt s opts = Inr c'"
  then show "httpClient c' \<noteq> None" and "handleErrorFunc c' \<noteq> None"
    using NewRestClient_fields by blast+
next
  assume ex: "set opts \<subseteq> range WithPrepareRequestFunc \<union> range WithErrorHandlingFunc
                \<union> range WithHTTPClient"
    and fail: "NewRestClient dflt s opts = Inl e"
  show "\<exists>e'. url_Parse s = Inl e' \<and> e = WrapError ''invalid url: '' e'"
  proof (cases "url_Parse s")
    case (Inl e')
    with fail show ?thesis by (simp add: NewRestClient_def)
  next
    case (Inr u)
    from applyOptions_exported [OF ex] obtain c1 where
      "applyOptions opts \<lparr>baseURL = u, prepareFunc = None, handleErrorFunc = None,
         httpClient = None\<rparr> = Inr c1"
      by blast
    with Inr fail show ?thesis by (simp add: NewRestClient_def Let_def)
  qed
qed (simp_all add: WithPrepareRequestFunc_def WithErrorHandlingFunc_def WithHTTPClient_def)

theorem exported_options_never_fail_witness:
  "NewRestClient example_transport ''https://api.example.com/v1/''
     [WithPrepareRequestFunc None, WithErrorHandlingFunc None, WithHTTPClient None]
     = Inr example_client
   \<and> httpClient example_client \<noteq> None \<and> handleErrorFunc example_client \<noteq> None
   \<and> (\<exists>e'. url_Parse ''http://[::1'' = Inl e'
          \<and> NewRestClient example_transport ''http://[::1'' [WithHTTPClient None]
              = Inl (WrapError ''invalid url: '' e'))"
proof -
  have built: "NewRestClient example_transport ''https://api.example.com/v1/''
     [WithPrepareRequestFunc None, WithErrorHandlingFunc None, WithHTTPClient None]
     = Inr example_client"
    by (simp add: NewRestClient_def url_Parse_example example_client_def
          WithPrepareRequestFunc_def WithErrorHandlingFunc_def WithHTTPClient_def)
  have bad: "url_Parse ''http://[::1''
               = Inl (UrlError ''parse'' ''http://[::1'' (ErrorString ''missing ']' in host''))"
    by code_simp
  then have fails: "NewRestClient example_transport ''http://[::1'' [WithHTTPClient None]
                      = Inl (WrapError ''invalid url: ''
                               (UrlError ''parse'' ''http://[::1''
                                  (ErrorString ''missing ']' in host'')))"
    by (simp add: NewRestClient_def)
  note T = exported_options_never_fail
    [where dflt = example_transport and c' = example_client
       and s = "''https://api.example.com/v1/''"
       and opts = "[WithPrepareRequestFunc None, WithErrorHandlingFunc None, WithHTTPClient None]"]
  from T built have nn: "httpClient example_client \<noteq> None \<and> handleErrorFunc example_client \<noteq> None"
    by blast
  have sub: "set [WithHTTPClient None :: unit Option]
               \<subseteq> range WithPrepareRequestFunc \<union> range WithErrorHandlingFunc
                   \<union> range WithHTTPClient"
    by auto
  from exported_options_never_fail
    [where dflt = example_transport and s = "''http://[::1''" and opts = "[WithHTTPClient None]"
       and e = "WrapError ''invalid url: '' (UrlError ''parse'' ''http://[::1''
                                  (ErrorString ''missing ']' in host''))"]
    sub fails
  have "\<exists>e'. url_Parse ''http://[::1'' = Inl e'
          \<and> NewRestClient example_transport ''http://[::1'' [WithHTTPClient None]
              = Inl (WrapError ''invalid url: '' e')"
    by (metis fails)
  with built nn show ?thesis by simp
qed


section \<open>Building a request\<close>

lemma canonical_keys:
  "CanonicalMIMEHeaderKey ''Accept'' = ''Accept''"
  "CanonicalMIMEHeaderKey ''Content-Type'' = ''Content-Type''"
  by code_simp+

lemma http_NewRequestWithContext_Header:
  "http_NewRequestWithContext ctx0 method url body = Inr req \<Longrightarrow> Header req = Map.empty"
  by (auto simp: http_NewRequestWithContext_def Let_def split: if_splits option.splits sum.splits)

text \<open>
  Claim C9. A relative path with \<^verbatim>\<open>..\<close> segments can leave the base path: with the base
  URL \<^verbatim>\<open>https://api.example.com/v1\<close> and the relative path \<^verbatim>\<open>../admin\<close>, \<^verbatim>\<open>path.Join\<close>
  gives \<^verbatim>\<open>/admin\<close> and the URL of the request is the base URL with the path \<^verbatim>\<open>/admin\<close>.
\<close>

theorem NewRequest_dotdot_escapes_base_path:
  "url_Parse ''https://api.example.com/v1'' = Inr (example_base\<lparr>Path := ''/v1''\<rparr>)
   \<and> path_Join [''/v1'', ''../admin''] = ''/admin''
   \<and> (case NewRequest (\<lambda>b::unit. Inr [])
              (example_client\<lparr>baseURL := example_base\<lparr>Path := ''/v1''\<rparr>\<rparr>)
              (Some ()) ''GET'' ''../admin'' None of
          Inl err \<Rightarrow> False
        | Inr req \<Rightarrow> URL req = example_base\<lparr>Path := ''/admin''\<rparr>)"
  by code_simp

text \<open>
  Claim C7, as stated, fails: the prepare hook runs after the headers are set and returns
  the request, so a hook that replaces the headers leaves a request with no \<^verbatim>\<open>Accept\<close>
  header, and with a \<^verbatim>\<open>Content-Type\<close> header though the body is nil.
\<close>

theorem NewRequest_headers_counterexample:
  "(case NewRequest (\<lambda>b::unit. Inr ''null'')
       (example_client\<lparr>prepareFunc :=
           Some (\<lambda>req. (req\<lparr>Header := [''Content-Type'' \<mapsto> [''text/plain'']]\<rparr>, None))\<rparr>)
       (Some ()) ''GET'' ''widgets'' None of
     Inl err \<Rightarrow> False
   | Inr req \<Rightarrow> Header req ''Accept'' = None
        \<and> Header req ''Content-Type'' = Some [''text/plain''])"
  by code_simp

text \<open>
  Claim C7, amended. A request that \<^verbatim>\<open>NewRequest\<close> builds for a client with no prepare
  hook has the header \<^verbatim>\<open>Accept: application/json\<close>, and has the header
  \<^verbatim>\<open>Content-Type: application/json\<close> when a body was given and no \<^verbatim>\<open>Content-Type\<close> header
  when the body is nil. With a prepare hook, the hook receives that request, and the
  result is the request the hook returns, or the hook's error. When the encoder fails on
  the body, \<^verbatim>\<open>NewRequest\<close> returns an error and no request: the encoder's error, unless
  the path failed to parse before.
\<close>

theorem NewRequest_headers:
  "(prepareFunc c = None \<longrightarrow> NewRequest enc c ctxt verb relPath body = Inr req
      \<longrightarrow> Header req ''Accept'' = Some [''application/json'']
          \<and> (body \<noteq> None \<longrightarrow> Header req ''Content-Type'' = Some [''application/json''])
          \<and> (body = None \<longrightarrow> Header req ''Content-Type'' = None))
   \<and> (prepareFunc c = Some f
      \<longrightarrow> NewRequest enc c ctxt verb relPath body
          = (case NewRequest enc (c\<lparr>prepareFunc := None\<rparr>) ctxt verb relPath body of
               Inl err \<Rightarrow> Inl err
             | Inr req \<Rightarrow>
                 (case f req of
                    (req', Some err) \<Rightarrow> Inl err
                  | (req', None) \<Rightarrow> Inr req')))
   \<and> (body = Some b \<longrightarrow> enc b = Inl err
      \<longrightarrow> (\<exists>err'. NewRequest enc c ctxt verb relPath body = Inl err'
            \<and> (url_Parse (path_Join [Path (baseURL c), relPath]) = Inr rel \<longrightarrow> err' = err)))"
proof (intro conjI impI)
  assume np: "prepareFunc c = None"
    and ok: "NewRequest enc c ctxt verb relPath body = Inr req"
  from ok np obtain req0 where
    req: "req = Header_Set (if body \<noteq> None
                            then Header_Set req0 ''Content-Type'' ''application/json''
                            else req0) ''Accept'' ''application/json''"
    and h0: "Header req0 = Map.empty"
    by (auto simp: NewRequest_def Let_def split: sum.splits option.splits
             dest: http_NewRequestWithContext_Header)
  show "Header req ''Accept'' = Some [''application/json'']"
    by (simp add: req Header_Set_def canonical_keys)
  { assume "body \<noteq> None"
    then show "Header req ''Content-Type'' = Some [''application/json'']"
      by (simp add: req Header_Set_def canonical_keys) }
  { assume "body = None"
    then show "Header req ''Content-Type'' = None"
      by (simp add: req Header_Set_def canonical_keys h0) }
next
  assume "prepareFunc c = Some f"
  then show "NewRequest enc c ctxt verb relPath body
          = (case NewRequest enc (c\<lparr>prepareFunc := None\<rparr>) ctxt verb relPath body of
               Inl err \<Rightarrow> Inl err
             | Inr req \<Rightarrow>
                 (case f req of
                    (req', Some err) \<Rightarrow> Inl err
                  | (req', None) \<Rightarrow> Inr req'))"
    by (simp add: NewRequest_def Let_def split: sum.splits option.splits)
next
  assume "body = Some b" and "enc b = Inl err"
  then show "\<exists>err'. NewRequest enc c ctxt verb relPath body = Inl err'
            \<and> (url_Parse (path_Join [Path (baseURL c), relPath]) = Inr rel \<longrightarrow> err' = err)"
    by (simp add: NewRequest_def Let_def split: sum.splits)
qed

theorem NewRequest_headers_witness:
  "(case NewRequest (\<lambda>b::nat. Inr ''1'') (example_client\<lparr>prepareFunc := None\<rparr>)
          (Some ()) ''POST'' ''widgets'' (Some 1) of
      Inl err \<Rightarrow> False
    | Inr req \<Rightarrow> Header req ''Accept'' = Some [''application/json'']
         \<and> Header req ''Content-Type'' = Some [''application/json''])
   \<and> (case NewRequest (\<lambda>b::nat. Inr ''1'') (example_client\<lparr>prepareFunc := None\<rparr>)
          (Some ()) ''GET'' ''widgets'' None of
      Inl err \<Rightarrow> False
    | Inr req \<Rightarrow> Header req ''Accept'' = Some [''application/json'']
         \<and> Header req ''Content-Type'' = None)
   \<and> NewRequest (\<lambda>b::nat. Inl (ErrorString ''json: unsupported value''))
        example_client (Some ()) ''POST'' ''widgets'' (Some 1)
      = Inl (ErrorString ''json: unsupported value'')"
proof -
  have "case NewRequest (\<lambda>b::nat. Inr ''1'') (example_client\<lparr>prepareFunc := None\<rparr>)
          (Some ()) ''POST'' ''widgets'' (Some 1) of Inl err \<Rightarrow> False | Inr req \<Rightarrow> True"
    by code_simp
  then obtain r1 where r1: "NewRequest (\<lambda>b::nat. Inr ''1'') (example_client\<lparr>prepareFunc := None\<rparr>)
          (Some ()) ''POST'' ''widgets'' (Some 1) = Inr r1"
    by (auto split: sum.splits)
  have "case NewRequest (\<lambda>b::nat. Inr ''1'') (example_client\<lparr>prepareFunc := None\<rparr>)
          (Some ()) ''GET'' ''widgets'' None of Inl err \<Rightarrow> False | Inr req \<Rightarrow> True"
    by code_simp
  then obtain r2 where r2: "NewRequest (\<lambda>b::nat. Inr ''1'') (example_client\<lparr>prepareFunc := None\<rparr>)
          (Some ()) ''GET'' ''widgets'' None = Inr r2"
    by (auto split: sum.splits)
  have p: "url_Parse (path_Join [Path (baseURL example_client), ''widgets''])
             = Inr (new_URL\<lparr>Path := ''/v1/widgets''\<rparr>)"
    by code_simp
  note T = NewRequest_headers
  from T [where c = "example_client\<lparr>prepareFunc := None\<rparr>" and req = r1
            and body = "Some 1" and enc = "\<lambda>b::nat. Inr ''1''"
            and ctxt = "Some ()" and verb = "''POST''" and relPath = "''widgets''"] r1
  have 1: "Header r1 ''Accept'' = Some [''application/json'']
           \<and> Header r1 ''Content-Type'' = Some [''application/json'']"
    by simp
  from T [where c = "example_client\<lparr>prepareFunc := None\<rparr>" and req = r2
            and body = "None :: nat option" and enc = "\<lambda>b::nat. Inr ''1''"
            and ctxt = "Some ()" and verb = "''GET''" and relPath = "''widgets''"] r2
  have 2: "Header r2 ''Accept'' = Some [''application/json'']
           \<and> Header r2 ''Content-Type'' = None"
    by simp
  from T [where c = example_client and body = "Some (1::nat)" and b = 1
            and enc = "\<lambda>b::nat. Inl (ErrorString ''json: unsupported value'')"
            and err = "ErrorString ''json: unsupported value''"
            and ctxt = "Some ()" and verb = "''POST''" and relPath = "''widgets''"
            and rel = "new_URL\<lparr>Path := ''/v1/widgets''\<rparr>"] p
  have 3: "NewRequest (\<lambda>b::nat. Inl (ErrorString ''json: unsupported value''))
        example_client (Some ()) ''POST'' ''widgets'' (Some 1)
      = Inl (ErrorString ''json: unsupported value'')"
    by auto
  from 1 2 3 r1 r2 show ?thesis by simp
qed


section \<open>The target URL\<close>

subsection \<open>Strings without a given byte\<close>

lemma HasPrefix_single: "strings_HasPrefix s [c] = (s \<noteq> [] \<and> hd s = c)"
  by (cases s) (auto simp: strings_HasPrefix_def)

lemma Index_absent: "c \<notin> set s \<Longrightarrow> strings_Index s [c] = None"
  by (induction s) (auto simp: HasPrefix_single)

lemma Index_first: "c \<notin> set h \<Longrightarrow> strings_Index (h @ c # t) [c] = Some (length h)"
  by (induction h) (auto simp: HasPrefix_single)

lemma LastIndex_absent: "c \<notin> set s \<Longrightarrow> strings_LastIndex s [c] = None"
  by (induction s) (auto simp: HasPrefix_single)

lemma LastIndex_last: "c \<notin> set t \<Longrightarrow> strings_LastIndex (h @ c # t) [c] = Some (length h)"
  by (induction h) (auto simp: HasPrefix_single LastIndex_absent)

lemma Cut_absent: "c \<notin> set s \<Longrightarrow> strings_Cut s [c] = (s, [], False)"
  by (simp add: strings_Cut_def Index_absent)

lemma Contains_absent: "c \<notin> set s \<Longrightarrow> \<not> strings_Contains s [c]"
  by (simp add: strings_Contains_def Index_absent)

lemma HasSuffix_single: "strings_HasSuffix s [c] \<Longrightarrow> c \<in> set s"
proof -
  assume "strings_HasSuffix s [c]"
  then have "drop (length s - 1) s = [c]" by (simp add: strings_HasSuffix_def)
  then have "c \<in> set (drop (length s - 1) s)" by simp
  then show ?thesis by (rule in_set_dropD)
qed

lemma pathByte_facts:
  assumes "pathByte c"
  shows "\<not> shouldEscape c encodePath" and "c \<noteq> CHR ''%''" and "c \<noteq> CHR ''?''"
    and "c \<noteq> CHR ''#''" and "\<not> (byte c < 32 \<or> byte c = 0x7f)"
  using assms
  by (auto simp: pathByte_def shouldEscape_def isLower_def isUpper_def isDigit_def byte_def)

lemma hostByte_facts:
  assumes "hostByte c"
  shows "\<not> shouldEscape c encodeHost" and "c \<noteq> CHR ''%''" and "c \<noteq> CHR ''?''"
    and "c \<noteq> CHR ''#''" and "c \<noteq> CHR ''/''" and "c \<noteq> CHR ''@''" and "c \<noteq> CHR ''[''"
    and "c \<noteq> CHR '']''" and "c \<noteq> CHR '':''"
    and "\<not> (byte c < 32 \<or> byte c = 0x7f)"
  using assms
  by (auto simp: hostByte_def shouldEscape_def isLower_def isUpper_def isDigit_def byte_def)

lemma schemeByte_facts:
  assumes "schemeByte c"
  shows "c \<noteq> CHR ''?''" and "c \<noteq> CHR ''#''" and "c \<noteq> CHR '':''" and "c \<noteq> CHR ''/''"
    and "\<not> (byte c < 32 \<or> byte c = 0x7f)" and "toLowerByte c = c"
  using assms
  by (auto simp: schemeByte_def toLowerByte_def isLower_def isUpper_def isDigit_def byte_def)

lemma digit_facts:
  assumes "isDigit c"
  shows "\<not> shouldEscape c encodeHost" and "c \<noteq> CHR ''%''" and "c \<noteq> CHR ''?''"
    and "c \<noteq> CHR ''#''" and "c \<noteq> CHR ''/''" and "c \<noteq> CHR ''@''" and "c \<noteq> CHR ''[''"
    and "c \<noteq> CHR '']''" and "c \<noteq> CHR '':''"
    and "\<not> (byte c < 32 \<or> byte c = 0x7f)"
  using assms
  by (auto simp: shouldEscape_def isLower_def isUpper_def isDigit_def byte_def)

lemma unescape_scan_id:
  assumes "CHR ''%'' \<notin> set s" and "mode \<noteq> encodeQueryComponent"
    and "mode = encodeHost \<or> mode = encodeZone \<Longrightarrow> \<forall>c\<in>set s. \<not> shouldEscape c encodeHost"
  shows "unescape_scan mode s n False = Inr (n, False)"
  using assms
  by (induction mode s n "False" rule: unescape_scan.induct) auto

lemma unescape_id:
  assumes "CHR ''%'' \<notin> set s" and "mode \<noteq> encodeQueryComponent"
    and "mode = encodeHost \<or> mode = encodeZone \<Longrightarrow> \<forall>c\<in>set s. \<not> shouldEscape c encodeHost"
  shows "unescape s mode = Inr s"
  using unescape_scan_id [OF assms, of 0] by (simp add: unescape_def)

lemma escape_id: "\<forall>c\<in>set s. \<not> shouldEscape c mode \<Longrightarrow> escape s mode = s"
  by (simp add: escape_def Let_def filter_empty_conv)

subsection \<open>Clean on a rooted path\<close>

text \<open>
  On a rooted path the buffer of \<^verbatim>\<open>Clean\<close> is always \<open>render segs\<close> for good segments:
  a real element appends a segment, \<^verbatim>\<open>..\<close> removes the last one, if any.
\<close>

lemma joinsegs_snoc:
  "joinsegs (segs @ [e]) = (if segs = [] then e else joinsegs segs @ ''/'' @ e)"
  by (induction segs rule: joinsegs.induct) auto

lemma render_snoc:
  "render (segs @ [e]) = (if segs = [] then CHR ''/'' # e else render segs @ ''/'' @ e)"
  by (simp add: render_def joinsegs_snoc)

lemma joinsegs_nonempty: "segs \<noteq> [] \<Longrightarrow> list_all good_seg segs \<Longrightarrow> joinsegs segs \<noteq> []"
  by (induction segs rule: joinsegs.induct) (auto simp: good_seg_def)

lemma length_render_1: "list_all good_seg segs \<Longrightarrow> (length (render segs) = Suc 0) = (segs = [])"
  using joinsegs_nonempty [of segs] by (cases segs) (auto simp: render_def)

lemma backtrack_stop:
  assumes "\<forall>i. w' < i \<and> i \<le> w \<longrightarrow> out ! i \<noteq> CHR ''/''"
    and "dotdot \<le> w'" and "w' \<le> w" and "w' = dotdot \<or> out ! w' = CHR ''/''"
  shows "backtrack out dotdot w = w'"
  using assms
proof (induction out dotdot w rule: backtrack.induct)
  case (1 out dotdot w)
  show ?case
  proof (cases "w = w'")
    case True
    with "1.prems" show ?thesis by (subst backtrack.simps) auto
  next
    case False
    with "1.prems" have gt: "w' < w" by simp
    with "1.prems" have step: "w > dotdot \<and> out ! w \<noteq> CHR ''/''" by auto
    have "backtrack out dotdot (w - 1) = w'"
      using step "1.prems" gt by (intro "1.IH") auto
    with step show ?thesis by (subst backtrack.simps) simp
  qed
qed

lemma backtrack_render:
  assumes "good_seg seg"
  shows "take (backtrack (render (segs @ [seg])) 1 (length (render (segs @ [seg])) - 1))
           (render (segs @ [seg])) = render segs"
proof -
  from assms have nz: "\<And>k. k < length seg \<Longrightarrow> seg ! k \<noteq> CHR ''/''"
    by (metis good_seg_def nth_mem)
  show ?thesis
  proof (cases "segs = []")
    case True
    have "backtrack (CHR ''/'' # seg) 1 (length seg) = 1"
      using assms nz
      by (intro backtrack_stop) (auto simp: good_seg_def nth_Cons' Suc_le_eq)
    with True show ?thesis by (simp add: render_snoc) (simp add: render_def)
  next
    case False
    let ?L = "length (render segs)"
    have "backtrack (render segs @ CHR ''/'' # seg) 1 (?L + length seg) = ?L"
      using assms nz
      by (intro backtrack_stop) (auto simp: good_seg_def nth_append render_def nth_Cons')
    with False show ?thesis by (simp add: render_snoc)
  qed
qed

lemma takeWhile_eq_Nil: "(takeWhile P xs = []) = (xs = [] \<or> \<not> P (hd xs))"
  by (cases xs) auto

lemma elem_good:
  assumes "c \<noteq> CHR ''/''"
    and "\<not> (c = CHR ''.'' \<and> (rest = [] \<or> hd rest = CHR ''/''))"
    and "\<not> (c = CHR ''.'' \<and> hd rest = CHR ''.'' \<and> (tl rest = [] \<or> hd (tl rest) = CHR ''/''))"
  shows "good_seg (c # takeWhile (\<lambda>x. x \<noteq> CHR ''/'') rest)"
proof -
  let ?t = "takeWhile (\<lambda>x. x \<noteq> CHR ''/'') rest"
  have no_slash: "CHR ''/'' \<notin> set (c # ?t)"
    using assms(1) by (auto dest: set_takeWhileD)
  have not_dot: "c # ?t \<noteq> ''.''"
    using assms(2) by (auto simp: takeWhile_eq_Nil)
  have not_dotdot: "c # ?t \<noteq> ''..''"
  proof
    assume eq: "c # ?t = ''..''"
    then have c: "c = CHR ''.''" and t: "?t = ''.''" by auto
    from t obtain r2 where rest: "rest = CHR ''.'' # r2"
      by (cases rest) (auto split: if_splits)
    with t have "takeWhile (\<lambda>x. x \<noteq> CHR ''/'') r2 = []" by simp
    then have "r2 = [] \<or> hd r2 = CHR ''/''" by (simp add: takeWhile_eq_Nil)
    with c rest assms(3) show False by simp
  qed
  from no_slash not_dot not_dotdot show ?thesis by (simp add: good_seg_def)
qed

lemma Clean_step_rooted:
  assumes "list_all good_seg segs"
  shows "\<exists>rest' segs'. Clean_step True c rest (render segs) 1 = (rest', render segs', 1)
           \<and> list_all good_seg segs'
           \<and> set (concat segs') \<subseteq> set (concat segs) \<union> set (c # rest)
           \<and> set rest' \<subseteq> set rest"
proof -
  consider (slash) "c = CHR ''/''"
    | (dot) "c \<noteq> CHR ''/''" "c = CHR ''.'' \<and> (rest = [] \<or> hd rest = CHR ''/'')"
    | (dotdot) "c \<noteq> CHR ''/''" "\<not> (c = CHR ''.'' \<and> (rest = [] \<or> hd rest = CHR ''/''))"
        "c = CHR ''.'' \<and> hd rest = CHR ''.'' \<and> (tl rest = [] \<or> hd (tl rest) = CHR ''/'')"
    | (elem) "c \<noteq> CHR ''/''" "\<not> (c = CHR ''.'' \<and> (rest = [] \<or> hd rest = CHR ''/''))"
        "\<not> (c = CHR ''.'' \<and> hd rest = CHR ''.'' \<and> (tl rest = [] \<or> hd (tl rest) = CHR ''/''))"
    by blast
  then show ?thesis
  proof cases
    case slash
    with assms show ?thesis
      by (intro exI [of _ rest] exI [of _ segs]) (auto simp: Clean_step_def)
  next
    case dot
    with assms show ?thesis
      by (intro exI [of _ rest] exI [of _ segs]) (auto simp: Clean_step_def)
  next
    case dotdot
    have tl_sub: "set (tl rest) \<subseteq> set rest"
      by (cases rest) auto
    show ?thesis
    proof (cases "segs = []")
      case True
      with dotdot assms tl_sub show ?thesis
        by (intro exI [of _ "tl rest"] exI [of _ segs]) (auto simp: Clean_step_def render_def)
    next
      case False
      then have segs: "segs = butlast segs @ [last segs]" by simp
      from assms False have g: "good_seg (last segs)"
        by (simp add: list_all_iff)
      from assms have gb: "list_all good_seg (butlast segs)"
        by (auto simp: list_all_iff dest: in_set_butlastD)
      have len: "length (render segs) > 1"
        using length_render_1 [OF assms] False by (simp add: render_def)
      have bt: "take (backtrack (render segs) 1 (length (render segs) - 1)) (render segs)
                  = render (butlast segs)"
        using backtrack_render [OF g, of "butlast segs"] segs by simp
      have sub: "set (concat (butlast segs)) \<subseteq> set (concat segs)"
        by (auto dest: in_set_butlastD)
      from dotdot len bt gb sub tl_sub show ?thesis
        by (intro exI [of _ "tl rest"] exI [of _ "butlast segs"])
           (auto simp: Clean_step_def)
    qed
  next
    case elem
    let ?e = "c # takeWhile (\<lambda>x. x \<noteq> CHR ''/'') rest"
    have g: "good_seg ?e" using elem by (rule elem_good)
    have out: "(if length (render segs) \<noteq> 1 then render segs @ ''/'' else render segs) @ ?e
                 = render (segs @ [?e])"
      using length_render_1 [OF assms] by (auto simp: render_snoc render_def joinsegs_snoc)
    have sub1: "set (dropWhile (\<lambda>x. x \<noteq> CHR ''/'') rest) \<subseteq> set rest"
      by (auto dest: set_dropWhileD)
    have sub2: "set (concat (segs @ [?e])) \<subseteq> set (concat segs) \<union> set (c # rest)"
      by (auto dest: set_takeWhileD)
    from elem have step: "Clean_step True c rest (render segs) 1
        = (dropWhile (\<lambda>x. x \<noteq> CHR ''/'') rest,
           (if length (render segs) \<noteq> 1 then render segs @ ''/'' else render segs) @ ?e, 1)"
      unfolding Clean_step_def Let_def
      by (simp only: if_not_P [OF elem(1)] if_not_P [OF elem(2)] if_not_P [OF elem(3)]) simp
    from assms g have "list_all good_seg (segs @ [?e])" by simp
    with step out sub1 sub2 show ?thesis
      by (intro exI [of _ "dropWhile (\<lambda>x. x \<noteq> CHR ''/'') rest"] exI [of _ "segs @ [?e]"])
         (simp only: simp_thms)
  qed
qed

lemma Clean_loop_rooted:
  assumes "list_all good_seg segs"
  shows "\<exists>segs'. Clean_loop True rest (render segs) 1 = render segs'
           \<and> list_all good_seg segs'
           \<and> set (concat segs') \<subseteq> set (concat segs) \<union> set rest"
  using assms
proof (induction rest arbitrary: segs rule: length_induct)
  case (1 rest)
  show ?case
  proof (cases rest)
    case Nil
    with "1.prems" show ?thesis by (intro exI [of _ segs]) simp
  next
    case (Cons c rest0)
    from Clean_step_rooted [OF "1.prems", of c rest0] obtain rest' segs1 where
      step: "Clean_step True c rest0 (render segs) 1 = (rest', render segs1, 1)"
      and g1: "list_all good_seg segs1"
      and sub1: "set (concat segs1) \<subseteq> set (concat segs) \<union> set (c # rest0)"
      and subr: "set rest' \<subseteq> set rest0"
      by blast
    have "length rest' \<le> length rest0"
      using Clean_step_shorter [of True c rest0 "render segs" 1] step by simp
    with Cons have shorter: "length rest' < length rest" by simp
    from "1.IH" shorter g1 obtain segs' where
      loop: "Clean_loop True rest' (render segs1) 1 = render segs'"
      and g': "list_all good_seg segs'"
      and sub': "set (concat segs') \<subseteq> set (concat segs1) \<union> set rest'"
      by blast
    from Cons step loop have "Clean_loop True rest (render segs) 1 = render segs'" by simp
    moreover have "set (concat segs') \<subseteq> set (concat segs) \<union> set (c # rest0)"
      using sub' sub1 subr set_subset_Cons [of rest0 c] by blast
    then have "set (concat segs') \<subseteq> set (concat segs) \<union> set rest"
      by (simp only: Cons)
    ultimately show ?thesis using g' by blast
  qed
qed

lemma set_joinsegs: "set (joinsegs segs) \<subseteq> set (concat segs) \<union> {CHR ''/''}"
  by (induction segs rule: joinsegs.induct) auto

lemma hd_joinsegs:
  "segs \<noteq> [] \<Longrightarrow> list_all good_seg segs \<Longrightarrow> joinsegs segs \<noteq> [] \<and> hd (joinsegs segs) \<noteq> CHR ''/''"
  by (induction segs rule: joinsegs.induct)
     (auto simp: good_seg_def hd_append dest: hd_in_set)

lemma render_not_double_slash:
  assumes "list_all good_seg segs"
  shows "\<not> strings_HasPrefix (render segs) ''//''"
proof (cases "segs = []")
  case True
  then show ?thesis by (simp add: render_def strings_HasPrefix_def)
next
  case False
  from hd_joinsegs [OF False assms] obtain x xs where "joinsegs segs = x # xs" "x \<noteq> CHR ''/''"
    by (cases "joinsegs segs") auto
  then show ?thesis by (simp add: render_def strings_HasPrefix_def)
qed

lemma path_Join_rooted:
  assumes "rooted_join P R"
  shows "\<exists>segs. path_Join [P, R] = render segs \<and> list_all good_seg segs
           \<and> set (concat segs) \<subseteq> set P \<union> set R \<union> {CHR ''/''}"
proof -
  let ?x = "if P = [] then R else P @ ''/'' @ R"
  from assms have jb: "join_buf [] [P, R] = ?x" by (auto simp: rooted_join_def)
  from assms have x: "?x \<noteq> []" "hd ?x = CHR ''/''" by (auto simp: rooted_join_def)
  from Clean_loop_rooted [of "[]" "tl ?x"] obtain segs where
    loop: "Clean_loop True (tl ?x) (render []) 1 = render segs"
    and g: "list_all good_seg segs"
    and sub: "set (concat segs) \<subseteq> set (concat []) \<union> set (tl ?x)"
    by auto
  have r0: "render [] = ''/''" by (simp add: render_def)
  have "path_Clean ?x = render segs"
    using x loop r0 by (simp add: path_Clean_def Let_def render_def)
  moreover from assms have "sum_list (map length [P, R]) \<noteq> 0"
    by (auto simp: rooted_join_def)
  ultimately have "path_Join [P, R] = render segs"
    using jb by (simp only: path_Join_def if_False)
  moreover have "set (tl ?x) \<subseteq> set ?x" by (cases ?x) auto
  then have "set (tl ?x) \<subseteq> set P \<union> set R \<union> {CHR ''/''}"
    by (auto split: if_splits)
  with sub have "set (concat segs) \<subseteq> set P \<union> set R \<union> {CHR ''/''}" by auto
  ultimately show ?thesis using g by blast
qed

subsection \<open>Resolving and parsing a cleaned path\<close>

lemma takeWhile_seg:
  "CHR ''/'' \<notin> set s \<Longrightarrow> takeWhile (\<lambda>x. x \<noteq> CHR ''/'') (s @ CHR ''/'' # t) = s"
  by (induction s) auto

lemma dropWhile_seg:
  "CHR ''/'' \<notin> set s \<Longrightarrow> dropWhile (\<lambda>x. x \<noteq> CHR ''/'') (s @ CHR ''/'' # t) = CHR ''/'' # t"
  by (induction s) auto

lemma takeWhile_all: "CHR ''/'' \<notin> set s \<Longrightarrow> takeWhile (\<lambda>x. x \<noteq> CHR ''/'') s = s"
  by (induction s) auto

lemma dropWhile_all: "CHR ''/'' \<notin> set s \<Longrightarrow> dropWhile (\<lambda>x. x \<noteq> CHR ''/'') s = []"
  by (induction s) auto

lemma resolve_elem_good:
  "good_seg s \<Longrightarrow> resolve_elem s dst False = (dst @ ''/'' @ s, False)"
  by (simp add: resolve_elem_def good_seg_def)

lemma resolve_loop_segs:
  assumes "segs \<noteq> []" and "list_all good_seg segs"
  shows "resolve_loop (joinsegs segs) dst False = (dst @ ''/'' @ joinsegs segs, last segs)"
  using assms
proof (induction segs arbitrary: dst rule: joinsegs.induct)
  case 1
  then show ?case by simp
next
  case (2 s)
  then have g: "good_seg s" by simp
  then have ns: "CHR ''/'' \<notin> set s" by (simp add: good_seg_def)
  show ?case
    by (subst resolve_loop.simps)
       (simp add: Let_def takeWhile_all [OF ns] dropWhile_all [OF ns] resolve_elem_good [OF g])
next
  case (3 s t ts)
  then have g: "good_seg s" by simp
  then have ns: "CHR ''/'' \<notin> set s" by (simp add: good_seg_def)
  from 3 have IH: "\<And>dst. resolve_loop (joinsegs (t # ts)) dst False
                      = (dst @ ''/'' @ joinsegs (t # ts), last (t # ts))"
    by simp
  show ?case
    by (subst resolve_loop.simps)
       (simp add: Let_def takeWhile_seg [OF ns] dropWhile_seg [OF ns] resolve_elem_good [OF g] IH)
qed

lemma resolve_loop_render:
  assumes "list_all good_seg segs"
  shows "resolve_loop (render segs) ''/'' True
           = (''//'' @ joinsegs segs, if segs = [] then [] else last segs)"
proof -
  have first: "resolve_elem [] ''/'' True = (''/'', False)"
    by (simp add: resolve_elem_def)
  have "resolve_loop (render segs) ''/'' True = resolve_loop (joinsegs segs) ''/'' False"
    by (subst resolve_loop.simps) (simp add: render_def Let_def first)
  also have "\<dots> = (''//'' @ joinsegs segs, if segs = [] then [] else last segs)"
  proof (cases "segs = []")
    case True
    then show ?thesis
      by (subst resolve_loop.simps) (simp add: Let_def resolve_elem_def)
  next
    case False
    with resolve_loop_segs [OF False assms, of "''/''"] show ?thesis by simp
  qed
  finally show ?thesis .
qed

lemma resolvePath_render:
  assumes "list_all good_seg segs"
  shows "resolvePath base (render segs) = render segs"
proof -
  have last_good: "segs \<noteq> [] \<Longrightarrow> last segs \<noteq> ''.'' \<and> last segs \<noteq> ''..''"
    using assms by (auto simp: list_all_iff good_seg_def dest!: last_in_set)
  show ?thesis
    using last_good
    by (simp add: resolvePath_def Let_def resolve_loop_render [OF assms])
       (simp add: render_def)
qed

lemma render_hd: "render segs \<noteq> [] \<and> hd (render segs) = CHR ''/''"
  by (simp add: render_def)

lemma getScheme_slash: "hd J = CHR ''/'' \<Longrightarrow> J \<noteq> [] \<Longrightarrow> getScheme J = Inr ([], J)"
  by (cases J) (auto simp: getScheme_def isLower_def isUpper_def isDigit_def byte_def)

lemma parse_query_none:
  "CHR ''?'' \<notin> set rest \<Longrightarrow> parse_query url rest = (url\<lparr>RawQuery := []\<rparr>, rest)"
  by (auto simp: parse_query_def Cut_absent dest: HasSuffix_single)

lemma setPath_plain:
  assumes "\<forall>c\<in>set J. pathByte c"
  shows "setPath url J = Inr (url\<lparr>Path := J, RawPath := []\<rparr>)"
proof -
  from assms have "CHR ''%'' \<notin> set J" by (auto dest: pathByte_facts(2))
  then have u: "unescape J encodePath = Inr J" by (intro unescape_id) simp_all
  from assms have "escape J encodePath = J"
    by (intro escape_id) (auto dest: pathByte_facts(1))
  with u show ?thesis by (simp add: setPath_def)
qed

lemma EscapedPath_plain:
  assumes "\<forall>c\<in>set (Path url). pathByte c" and "RawPath url = []" and "hd (Path url) = CHR ''/''"
  shows "EscapedPath url = Path url"
proof -
  from assms(1) have "escape (Path url) encodePath = Path url"
    by (intro escape_id) (auto dest: pathByte_facts(1))
  moreover from assms(3) have "Path url \<noteq> ''*''" by auto
  ultimately show ?thesis using assms(2) by (simp add: EscapedPath_def)
qed

lemma url_Parse_path:
  assumes g: "list_all good_seg segs" and pb: "\<forall>c\<in>set (render segs). pathByte c"
  shows "url_Parse (render segs) = Inr (new_URL\<lparr>Path := render segs\<rparr>)"
proof -
  let ?J = "render segs"
  have hd: "?J \<noteq> []" "hd ?J = CHR ''/''" using render_hd by auto
  from pb have nohash: "CHR ''#'' \<notin> set ?J" and noq: "CHR ''?'' \<notin> set ?J"
    by (auto dest: pathByte_facts)
  from pb have noctl: "\<not> stringContainsCTLByte ?J"
    by (auto simp: stringContainsCTLByte_def list_ex_iff dest: pathByte_facts(5))
  from hd have nostar: "?J \<noteq> ''*''" by auto
  have pre1: "strings_HasPrefix ?J ''/''" using hd by (simp add: HasPrefix_single)
  have pre2: "\<not> strings_HasPrefix ?J ''//''" using g by (rule render_not_double_slash)
  have auth: "parse_authority (new_URL\<lparr>RawQuery := []\<rparr>) False ?J
                = Inr (new_URL\<lparr>RawQuery := []\<rparr>, ?J)"
    using pre2 by (simp add: parse_authority_def new_URL_def)
  have "parse ?J False = Inr (new_URL\<lparr>Path := ?J\<rparr>)"
    using noctl hd(1) nostar pre1 auth
    by (simp add: parse_def getScheme_slash [OF hd(2) hd(1)] strings_ToLower_def
          parse_query_none [OF noq] setPath_plain [OF pb])
       (simp add: new_URL_def setPath_plain [OF pb])
  then show ?thesis
    by (simp add: url_Parse_def Cut_absent [OF nohash])
qed

lemma ResolveReference_path:
  assumes g: "list_all good_seg segs" and pb: "\<forall>c\<in>set (render segs). pathByte c"
  shows "ResolveReference u (new_URL\<lparr>Path := render segs\<rparr>)
           = new_URL\<lparr>Scheme := Scheme u, User := User u, Host := Host u, Path := render segs\<rparr>"
proof -
  let ?J = "render segs"
  let ?ref = "new_URL\<lparr>Path := ?J\<rparr>"
  have hd: "?J \<noteq> []" "hd ?J = CHR ''/''" using render_hd by auto
  have ep: "EscapedPath ?ref = ?J"
    using pb hd by (intro EscapedPath_plain [of ?ref, simplified]) (simp_all add: new_URL_def)
  have rp: "resolvePath (EscapedPath u) ?J = ?J" using g by (rule resolvePath_render)
  show ?thesis
    using hd(1)
    by (simp add: ResolveReference_def Let_def ep rp setPath'_def setPath_plain [OF pb])
       (simp add: new_URL_def)
qed

subsection \<open>The base URL printed and parsed again\<close>

lemma simple_host_split:
  assumes "simple_host h"
  obtains name port where "h = name @ port" and "name \<noteq> []" and "\<forall>c\<in>set name. hostByte c"
    and "port = [] \<or> (\<exists>ds. port = CHR '':'' # ds \<and> ds \<noteq> [] \<and> (\<forall>c\<in>set ds. isDigit c))"
proof -
  let ?name = "takeWhile (\<lambda>c. c \<noteq> CHR '':'') h"
  let ?port = "dropWhile (\<lambda>c. c \<noteq> CHR '':'') h"
  have h: "h = ?name @ ?port" by simp
  from assms have n: "?name \<noteq> []" and hb: "\<forall>c\<in>set ?name. hostByte c"
    and p: "?port = [] \<or> tl ?port \<noteq> [] \<and> list_all isDigit (tl ?port)"
    by (simp_all add: simple_host_def Let_def list_all_iff)
  have "?port = [] \<or> (\<exists>ds. ?port = CHR '':'' # ds \<and> ds \<noteq> [] \<and> (\<forall>c\<in>set ds. isDigit c))"
  proof (cases "?port")
    case Nil
    then show ?thesis by simp
  next
    case (Cons x ds)
    then have "x = CHR '':''" using hd_dropWhile [of "\<lambda>c. c \<noteq> CHR '':''" h] by auto
    with Cons p show ?thesis by (auto simp: list_all_iff)
  qed
  with h n hb show ?thesis using that by blast
qed

lemma hostPort_facts:
  assumes "hostByte c \<or> c = CHR '':''"
  shows "\<not> shouldEscape c encodeHost" and "c \<noteq> CHR ''%''" and "c \<noteq> CHR ''?''"
    and "c \<noteq> CHR ''#''" and "c \<noteq> CHR ''/''" and "c \<noteq> CHR ''@''" and "c \<noteq> CHR ''[''"
    and "c \<noteq> CHR '']''" and "\<not> (byte c < 32 \<or> byte c = 0x7f)"
  using assms
  by (auto simp: hostByte_def shouldEscape_def isLower_def isUpper_def isDigit_def byte_def)

lemma simple_host_all:
  assumes "simple_host h"
  shows "\<forall>c\<in>set h. hostByte c \<or> c = CHR '':''"
proof -
  from assms obtain name port where h: "h = name @ port"
    and hb: "\<forall>c\<in>set name. hostByte c"
    and p: "port = [] \<or> (\<exists>ds. port = CHR '':'' # ds \<and> ds \<noteq> [] \<and> (\<forall>c\<in>set ds. isDigit c))"
    by (rule simple_host_split)
  have "\<forall>c\<in>set port. hostByte c \<or> c = CHR '':''"
    using p by (auto simp: hostByte_def)
  with hb show ?thesis unfolding h by auto
qed

lemma simple_host_bytes:
  assumes "simple_host h"
  shows "h \<noteq> []" and "hd h \<noteq> CHR ''[''" and "\<forall>c\<in>set h. \<not> shouldEscape c encodeHost"
    and "CHR ''/'' \<notin> set h" and "CHR ''@'' \<notin> set h" and "CHR ''#'' \<notin> set h"
    and "CHR ''?'' \<notin> set h" and "CHR ''%'' \<notin> set h" and "CHR '']'' \<notin> set h"
    and "\<forall>c\<in>set h. \<not> (byte c < 32 \<or> byte c = 0x7f)"
proof -
  note all = simple_host_all [OF assms]
  from assms obtain name port where h: "h = name @ port" and n: "name \<noteq> []"
    by (rule simple_host_split)
  show ne: "h \<noteq> []" using h n by simp
  then have "hd h \<in> set h" by simp
  with all show "hd h \<noteq> CHR ''[''" using hostPort_facts(7) by blast
  show "\<forall>c\<in>set h. \<not> shouldEscape c encodeHost" using all hostPort_facts(1) by blast
  show "CHR ''/'' \<notin> set h" using all hostPort_facts(5) by blast
  show "CHR ''@'' \<notin> set h" using all hostPort_facts(6) by blast
  show "CHR ''#'' \<notin> set h" using all hostPort_facts(4) by blast
  show "CHR ''?'' \<notin> set h" using all hostPort_facts(3) by blast
  show "CHR ''%'' \<notin> set h" using all hostPort_facts(2) by blast
  show "CHR '']'' \<notin> set h" using all hostPort_facts(8) by blast
  show "\<forall>c\<in>set h. \<not> (byte c < 32 \<or> byte c = 0x7f)" using all hostPort_facts(9) by blast
qed

lemma parseHost_simple:
  assumes "simple_host h"
  shows "parseHost h = Inr h"
proof -
  note b = simple_host_bytes [OF assms]
  have np: "\<not> strings_HasPrefix h ''[''" using b(1,2) by (simp add: HasPrefix_single)
  have un: "unescape h encodeHost = Inr h"
    using b(3,8) by (intro unescape_id) simp_all
  from assms obtain name port where h: "h = name @ port" and n: "name \<noteq> []"
    and hb: "\<forall>c\<in>set name. hostByte c"
    and p: "port = [] \<or> (\<exists>ds. port = CHR '':'' # ds \<and> ds \<noteq> [] \<and> (\<forall>c\<in>set ds. isDigit c))"
    by (rule simple_host_split)
  from p show ?thesis
  proof
    assume "port = []"
    with h hb have "CHR '':'' \<notin> set h" using hostByte_facts(9) by auto
    then show ?thesis using np un by (simp add: parseHost_def LastIndex_absent)
  next
    assume "\<exists>ds. port = CHR '':'' # ds \<and> ds \<noteq> [] \<and> (\<forall>c\<in>set ds. isDigit c)"
    then obtain ds where port: "port = CHR '':'' # ds" and ds: "\<forall>c\<in>set ds. isDigit c" by blast
    from ds have "CHR '':'' \<notin> set ds" using digit_facts(9) by blast
    then have li: "strings_LastIndex h '':'' = Some (length name)"
      unfolding h port by (rule LastIndex_last)
    have "validOptionalPort (drop (length name) h)"
      using ds by (simp add: h port validOptionalPort_def list_all_iff)
    then show ?thesis using np un li by (simp add: parseHost_def)
  qed
qed

lemma HasSuffix_last: "strings_HasSuffix s [c] \<Longrightarrow> s \<noteq> [] \<and> last s = c"
proof -
  assume a: "strings_HasSuffix s [c]"
  then have d: "drop (length s - 1) s = [c]" and l: "1 \<le> length s"
    by (simp_all add: strings_HasSuffix_def)
  from l have ne: "s \<noteq> []" by auto
  then have "last (drop (length s - 1) s) = last s" by (intro last_drop) simp
  with d ne show ?thesis by simp
qed

lemma removeEmptyPort_simple:
  assumes "simple_host h"
  shows "removeEmptyPort h = h"
proof -
  from assms obtain name port where h: "h = name @ port" and n: "name \<noteq> []"
    and hb: "\<forall>c\<in>set name. hostByte c"
    and p: "port = [] \<or> (\<exists>ds. port = CHR '':'' # ds \<and> ds \<noteq> [] \<and> (\<forall>c\<in>set ds. isDigit c))"
    by (rule simple_host_split)
  have "\<not> strings_HasSuffix h '':''"
  proof
    assume "strings_HasSuffix h '':''"
    then have l: "last h = CHR '':''" by (auto dest: HasSuffix_last)
    from p show False
    proof
      assume "port = []"
      with h n l have "CHR '':'' \<in> set name" by (metis append_Nil2 last_in_set)
      with hb show False using hostByte_facts(9) by blast
    next
      assume "\<exists>ds. port = CHR '':'' # ds \<and> ds \<noteq> [] \<and> (\<forall>c\<in>set ds. isDigit c)"
      then obtain ds where port: "port = CHR '':'' # ds" and ne: "ds \<noteq> []"
        and ds: "\<forall>c\<in>set ds. isDigit c" by blast
      from h port ne l have "last ds = CHR '':''" by simp
      with ne have "CHR '':'' \<in> set ds" by (metis last_in_set)
      with ds show False using digit_facts(9) by blast
    qed
  qed
  then show ?thesis by (simp add: removeEmptyPort_def strings_TrimSuffix_def)
qed

lemma getScheme_loop_scheme:
  assumes "list_all schemeByte sc" and "i = 0 \<longrightarrow> sc \<noteq> [] \<and> isLower (hd sc)"
  shows "getScheme_loop raw i (sc @ CHR '':'' # rest) = Inr (take (i + length sc) raw, rest)"
  using assms
proof (induction sc arbitrary: i)
  case Nil
  then show ?case by (simp add: isLower_def isUpper_def isDigit_def byte_def)
next
  case (Cons c sc)
  from Cons.prems have sb: "schemeByte c" and rest: "list_all schemeByte sc" by simp_all
  have IH: "getScheme_loop raw (Suc i) (sc @ CHR '':'' # rest)
              = Inr (take (Suc i + length sc) raw, rest)"
    using rest by (intro Cons.IH) simp_all
  show ?case
  proof (cases "isLower c")
    case True
    with IH show ?thesis by simp
  next
    case False
    with Cons.prems have "i \<noteq> 0" by auto
    moreover from sb False have "isDigit c \<or> c \<in> set ''+-.''" by (simp add: schemeByte_def)
    ultimately show ?thesis using IH False by simp
  qed
qed

lemma getScheme_scheme:
  assumes "schemeOK sc"
  shows "getScheme (sc @ CHR '':'' # rest) = Inr (sc, rest)"
  using assms getScheme_loop_scheme [of sc 0 "sc @ CHR '':'' # rest" rest]
  by (simp add: getScheme_def schemeOK_def)

lemma ToLower_scheme: "schemeOK sc \<Longrightarrow> strings_ToLower sc = sc"
proof -
  assume "schemeOK sc"
  then have "\<forall>c\<in>set sc. toLowerByte c = c"
    using schemeByte_facts(6) by (simp add: schemeOK_def list_all_iff)
  then show ?thesis unfolding strings_ToLower_def by (intro map_idI) simp
qed

lemma URL_String_simple:
  assumes sc: "schemeOK sc" and h: "simple_host h"
    and pb: "\<forall>c\<in>set J. pathByte c" and J: "J \<noteq> []" "hd J = CHR ''/''"
  shows "URL_String (new_URL\<lparr>Scheme := sc, User := None, Host := h, Path := J\<rparr>)
           = sc @ ''://'' @ h @ J"
proof -
  let ?v = "new_URL\<lparr>Scheme := sc, User := None, Host := h, Path := J\<rparr>"
  have ep: "EscapedPath ?v = J"
    using pb J by (intro EscapedPath_plain [of ?v, simplified]) (simp_all add: new_URL_def)
  have eh: "escape h encodeHost = h"
    using simple_host_bytes(3) [OF h] by (rule escape_id)
  from sc have s: "sc \<noteq> []" by (simp add: schemeOK_def)
  from simple_host_bytes(1) [OF h] have hn: "h \<noteq> []" .
  show ?thesis
    using s hn J
    by (simp add: URL_String_def Let_def ep eh) (simp add: new_URL_def)
qed

lemma url_Parse_simple:
  assumes sc: "schemeOK sc" and h: "simple_host h"
    and pb: "\<forall>c\<in>set J. pathByte c" and J: "J \<noteq> []" "hd J = CHR ''/''"
  shows "url_Parse (sc @ ''://'' @ h @ J)
           = Inr (new_URL\<lparr>Scheme := sc, User := None, Host := h, Path := J\<rparr>)"
proof -
  let ?rest = "''//'' @ h @ J"
  let ?raw = "sc @ CHR '':'' # ?rest"
  note hb = simple_host_bytes [OF h]
  from sc have scb: "\<forall>c\<in>set sc. schemeByte c" and scn: "sc \<noteq> []"
    by (simp_all add: schemeOK_def list_all_iff)
  have nohash: "CHR ''#'' \<notin> set ?raw"
    using scb pb hb(6) schemeByte_facts(2) pathByte_facts(4) by auto
  have noq: "CHR ''?'' \<notin> set ?rest"
    using pb hb(7) pathByte_facts(3) by auto
  have slash: "\<not> (byte (CHR ''/'') < 32 \<or> byte (CHR ''/'') = 0x7f)"
      "\<not> (byte (CHR '':'') < 32 \<or> byte (CHR '':'') = 0x7f)"
    by (simp_all add: byte_def)
  have noctl: "\<not> stringContainsCTLByte ?raw"
    unfolding stringContainsCTLByte_def list_ex_iff
    using scb pb hb(10) schemeByte_facts(5) pathByte_facts(5) slash by auto
  have nostar: "?raw \<noteq> ''*''" using scn by (cases sc) auto
  have gs: "getScheme ?raw = Inr (sc, ?rest)" using sc by (rule getScheme_scheme)
  obtain J' where Jc: "J = CHR ''/'' # J'" using J by (cases J) auto
  have idx: "strings_Index (h @ J) ''/'' = Some (length h)"
    unfolding Jc using hb(4) by (rule Index_first)
  have pa: "parseAuthority h = Inr (None, h)"
    using hb(5) by (simp add: parseAuthority_def LastIndex_absent parseHost_simple [OF h])
  have auth: "parse_authority (new_URL\<lparr>Scheme := sc, RawQuery := []\<rparr>) False ?rest
                = Inr (new_URL\<lparr>Scheme := sc, RawQuery := [], User := None, Host := h\<rparr>, J)"
    using scn by (simp add: parse_authority_def Let_def strings_HasPrefix_def idx pa)
  have pre: "strings_HasPrefix ?rest ''/''" by (simp add: strings_HasPrefix_def)
  have "parse ?raw False = Inr (new_URL\<lparr>Scheme := sc, User := None, Host := h, Path := J\<rparr>)"
    using noctl nostar pre scn
    by (simp add: parse_def gs ToLower_scheme [OF sc] parse_query_none [OF noq] auth
          setPath_plain [OF pb] del: append.simps)
       (simp add: new_URL_def)
  moreover have "strings_Cut ?raw ''#'' = (?raw, [], False)"
    using nohash by (rule Cut_absent)
  ultimately show ?thesis by (simp add: url_Parse_def)
qed

subsection \<open>The request\<close>

lemma http_NewRequestWithContext_URL:
  assumes sc: "schemeOK sc" and h: "simple_host h"
    and pb: "\<forall>c\<in>set J. pathByte c" and J: "J \<noteq> []" "hd J = CHR ''/''"
  shows "http_NewRequestWithContext ctxt verb (sc @ ''://'' @ h @ J) buf =
           (if \<not> validMethod (if verb = [] then ''GET'' else verb)
            then Inl (InvalidMethodError (if verb = [] then ''GET'' else verb))
            else case ctxt of
                   None \<Rightarrow> Inl (ErrorString ''net/http: nil Context'')
                 | Some x \<Rightarrow>
                     Inr \<lparr>ctx = x, Method = (if verb = [] then ''GET'' else verb),
                          URL = new_URL\<lparr>Scheme := sc, User := None, Host := h, Path := J\<rparr>,
                          Header = Map.empty, ReqBody = buf,
                          ContentLength = (case buf of None \<Rightarrow> 0 | Some b \<Rightarrow> length b),
                          ReqHost = h\<rparr>)"
  unfolding http_NewRequestWithContext_def Let_def
    url_Parse_simple [OF sc h pb J]
  by (simp add: removeEmptyPort_simple [OF h] new_URL_def split: option.splits)

lemma NewRequest_simple:
  assumes base: "simple_base (baseURL c)" and rel: "list_all pathByte relPath"
    and rooted: "rooted_join (Path (baseURL c)) relPath"
    and hook: "prepareFunc c = None"
  shows "NewRequest enc c ctxt verb relPath body =
           (case (case body of
                    None \<Rightarrow> Inr None
                  | Some b \<Rightarrow> (case enc b of Inl err \<Rightarrow> Inl err | Inr buf \<Rightarrow> Inr (Some buf))) of
              Inl err \<Rightarrow> Inl err
            | Inr buf \<Rightarrow>
                if \<not> validMethod (if verb = [] then ''GET'' else verb)
                then Inl (InvalidMethodError (if verb = [] then ''GET'' else verb))
                else
                  (case ctxt of
                     None \<Rightarrow> Inl (ErrorString ''net/http: nil Context'')
                   | Some x \<Rightarrow>
                       Inr (Header_Set
                              (if body \<noteq> None
                               then Header_Set
                                      \<lparr>ctx = x, Method = (if verb = [] then ''GET'' else verb),
                                       URL = joined_URL (baseURL c) relPath,
                                       Header = Map.empty, ReqBody = buf,
                                       ContentLength = (case buf of None \<Rightarrow> 0 | Some b \<Rightarrow> length b),
                                       ReqHost = Host (baseURL c)\<rparr>
                                      ''Content-Type'' ''application/json''
                               else \<lparr>ctx = x, Method = (if verb = [] then ''GET'' else verb),
                                       URL = joined_URL (baseURL c) relPath,
                                       Header = Map.empty, ReqBody = buf,
                                       ContentLength = (case buf of None \<Rightarrow> 0 | Some b \<Rightarrow> length b),
                                       ReqHost = Host (baseURL c)\<rparr>)
                              ''Accept'' ''application/json'')))"
proof -
  let ?u = "baseURL c"
  let ?J = "path_Join [Path ?u, relPath]"
  from base have sc: "schemeOK (Scheme ?u)" and h: "simple_host (Host ?u)"
    and Pb: "\<forall>c\<in>set (Path ?u). pathByte c"
    and op: "Opaque ?u = []" and us: "User ?u = None"
    by (simp_all add: simple_base_def list_all_iff)
  from path_Join_rooted [OF rooted] obtain segs where
    J: "?J = render segs" and g: "list_all good_seg segs"
    and sub: "set (concat segs) \<subseteq> set (Path ?u) \<union> set relPath \<union> {CHR ''/''}"
    by blast
  have slash: "pathByte (CHR ''/'')" by (simp add: pathByte_def)
  have "set (render segs) \<subseteq> set (concat segs) \<union> {CHR ''/''}"
    using set_joinsegs [of segs] by (auto simp: render_def)
  with sub have "set (render segs) \<subseteq> set (Path ?u) \<union> set relPath \<union> {CHR ''/''}" by blast
  with Pb rel slash have pb: "\<forall>c\<in>set (render segs). pathByte c"
    by (auto simp: list_all_iff)
  have hdJ: "render segs \<noteq> []" "hd (render segs) = CHR ''/''" using render_hd by auto
  have parse: "url_Parse ?J = Inr (new_URL\<lparr>Path := render segs\<rparr>)"
    unfolding J using g pb by (rule url_Parse_path)
  have res: "ResolveReference ?u (new_URL\<lparr>Path := render segs\<rparr>)
               = new_URL\<lparr>Scheme := Scheme ?u, User := None, Host := Host ?u, Path := render segs\<rparr>"
    using ResolveReference_path [OF g pb, of ?u] us by simp
  have str: "URL_String (new_URL\<lparr>Scheme := Scheme ?u, User := None, Host := Host ?u,
                                  Path := render segs\<rparr>)
               = Scheme ?u @ ''://'' @ Host ?u @ render segs"
    using sc h pb hdJ by (rule URL_String_simple)
  have tgt: "new_URL\<lparr>Scheme := Scheme ?u, User := None, Host := Host ?u, Path := render segs\<rparr>
               = joined_URL ?u relPath"
    using op us by (simp add: joined_URL_def J new_URL_def)
  have req: "http_NewRequestWithContext ctxt verb
               (URL_String (ResolveReference ?u (new_URL\<lparr>Path := render segs\<rparr>))) buf =
           (if \<not> validMethod (if verb = [] then ''GET'' else verb)
            then Inl (InvalidMethodError (if verb = [] then ''GET'' else verb))
            else case ctxt of
                   None \<Rightarrow> Inl (ErrorString ''net/http: nil Context'')
                 | Some x \<Rightarrow>
                     Inr \<lparr>ctx = x, Method = (if verb = [] then ''GET'' else verb),
                          URL = joined_URL ?u relPath,
                          Header = Map.empty, ReqBody = buf,
                          ContentLength = (case buf of None \<Rightarrow> 0 | Some b \<Rightarrow> length b),
                          ReqHost = Host ?u\<rparr>)" for buf
    by (simp only: res str) (simp only: http_NewRequestWithContext_URL [OF sc h pb hdJ] tgt)
  show ?thesis
    unfolding NewRequest_def Let_def parse sum.case req
    by (simp add: hook split: sum.splits option.splits)
qed

lemma Header_Set_URL: "URL (Header_Set req k v) = URL req"
  by (simp add: Header_Set_def)

lemma NewRequest_prepare:
  "NewRequest enc c ctxt verb relPath body =
     (case NewRequest enc (c\<lparr>prepareFunc := None\<rparr>) ctxt verb relPath body of
        Inl err \<Rightarrow> Inl err
      | Inr req \<Rightarrow>
          (case prepareFunc c of
             None \<Rightarrow> Inr req
           | Some f \<Rightarrow>
               (case f req of
                  (req', Some err) \<Rightarrow> Inl err
                | (req', None) \<Rightarrow> Inr req')))"
  by (simp add: NewRequest_def Let_def split: sum.splits option.splits)

text \<open>
  Where the join is rooted, the code does join. For a base URL with a scheme, a host of
  name bytes with an optional port, no user information and a path of path bytes that
  begins with a slash, and a relative path of path bytes (or such a base URL with an empty
  path and a relative path that begins with a slash): the request that \<^verbatim>\<open>NewRequest\<close>
  builds before the prepare hook has as its URL the base URL with the path
  \<^verbatim>\<open>path.Join(base path, relative path)\<close>, and with the query and fragment of the base
  URL dropped; \<^verbatim>\<open>NewRequest\<close> does build it when the context is not nil, the method is
  valid and the body, if any, encodes; the joined path is a slash followed by segments
  separated by single slashes, none of them empty, \<^verbatim>\<open>.\<close> or \<^verbatim>\<open>..\<close>. A prepare hook
  receives that request, and the request returned is the one the hook leaves. A colon is a
  path byte: on these base URLs a segment such as \<^verbatim>\<open>widgets:search\<close> is joined like any
  other.
\<close>

lemma NewRequest_joined_URL:
  assumes "simple_base (baseURL c)" and "list_all pathByte relPath"
    and "rooted_join (Path (baseURL c)) relPath"
  shows "(NewRequest enc (c\<lparr>prepareFunc := None\<rparr>) ctxt verb relPath body = Inr req
            \<longrightarrow> URL req = joined_URL (baseURL c) relPath)
         \<and> (ctxt \<noteq> None \<and> validMethod (if verb = [] then ''GET'' else verb)
              \<and> (body = None \<or> (\<exists>b buf. body = Some b \<and> enc b = Inr buf))
            \<longrightarrow> (\<exists>r. NewRequest enc (c\<lparr>prepareFunc := None\<rparr>) ctxt verb relPath body = Inr r))
         \<and> (\<exists>segs. path_Join [Path (baseURL c), relPath] = CHR ''/'' # joinsegs segs
                \<and> list_all good_seg segs)
         \<and> NewRequest enc c ctxt verb relPath body =
              (case NewRequest enc (c\<lparr>prepareFunc := None\<rparr>) ctxt verb relPath body of
                 Inl err \<Rightarrow> Inl err
               | Inr r \<Rightarrow>
                   (case prepareFunc c of
                      None \<Rightarrow> Inr r
                    | Some f \<Rightarrow>
                        (case f r of
                           (r', Some err) \<Rightarrow> Inl err
                         | (r', None) \<Rightarrow> Inr r')))"
proof (intro conjI impI)
  let ?c = "c\<lparr>prepareFunc := None\<rparr>"
  from assms have a: "simple_base (baseURL ?c)" "list_all pathByte relPath"
    "rooted_join (Path (baseURL ?c)) relPath" "prepareFunc ?c = None"
    by simp_all
  note eq = NewRequest_simple [OF a]
  { assume "NewRequest enc ?c ctxt verb relPath body = Inr req"
    then show "URL req = joined_URL (baseURL c) relPath"
      unfolding eq
      by (auto simp: Header_Set_URL split: sum.splits option.splits if_splits) }
  { assume "ctxt \<noteq> None \<and> validMethod (if verb = [] then ''GET'' else verb)
              \<and> (body = None \<or> (\<exists>b buf. body = Some b \<and> enc b = Inr buf))"
    then show "\<exists>r. NewRequest enc ?c ctxt verb relPath body = Inr r"
      unfolding eq
      by (auto split: sum.splits option.splits if_splits) }
  from path_Join_rooted [OF assms(3)]
  show "\<exists>segs. path_Join [Path (baseURL c), relPath] = CHR ''/'' # joinsegs segs
                \<and> list_all good_seg segs"
    by (auto simp: render_def)
  show "NewRequest enc c ctxt verb relPath body =
              (case NewRequest enc ?c ctxt verb relPath body of
                 Inl err \<Rightarrow> Inl err
               | Inr r \<Rightarrow>
                   (case prepareFunc c of
                      None \<Rightarrow> Inr r
                    | Some f \<Rightarrow>
                        (case f r of
                           (r', Some err) \<Rightarrow> Inl err
                         | (r', None) \<Rightarrow> Inr r')))"
    by (rule NewRequest_prepare)
qed

lemma NewRequest_joined_URL_scenario:
  "simple_base example_base \<and> list_all pathByte ''widgets''
   \<and> rooted_join (Path example_base) ''widgets''
   \<and> (\<exists>req. NewRequest (\<lambda>b::unit. Inr []) example_client (Some ()) ''GET'' ''widgets'' None
                = Inr req
          \<and> URL req = example_base\<lparr>Path := ''/v1/widgets''\<rparr>
          \<and> URL_String (URL req) = ''https://api.example.com/v1/widgets'')"
proof -
  have sb: "simple_base (baseURL example_client)"
    by code_simp
  have sb': "simple_base example_base"
    by code_simp
  have rel: "list_all pathByte ''widgets''"
    by code_simp
  have rj: "rooted_join (Path (baseURL example_client)) ''widgets''"
    by code_simp
  have rj': "rooted_join (Path example_base) ''widgets''"
    by code_simp
  have c: "example_client\<lparr>prepareFunc := None\<rparr> = example_client"
    by (simp add: example_client_def)
  have j: "joined_URL (baseURL example_client) ''widgets'' = example_base\<lparr>Path := ''/v1/widgets''\<rparr>"
    by code_simp
  have str: "URL_String (example_base\<lparr>Path := ''/v1/widgets''\<rparr>)
               = ''https://api.example.com/v1/widgets''"
    by code_simp
  have m: "validMethod (if ''GET'' = [] then ''GET'' else ''GET'')"
    by code_simp
  note T = NewRequest_joined_URL [OF sb rel rj, where enc = "\<lambda>b::unit. Inr []"
             and ctxt = "Some ()" and verb = "''GET''" and body = None, unfolded c]
  from T m obtain r where
    r: "NewRequest (\<lambda>b::unit. Inr []) example_client (Some ()) ''GET'' ''widgets'' None = Inr r"
    by blast
  with T [where req = r] have "URL r = joined_URL (baseURL example_client) ''widgets''"
    by blast
  with r j str sb' rel rj' show ?thesis by simp
qed

text \<open>
  Claim C1. For every valid base URL and relative path, the target URL of the request is
  the base URL with its path joined to the relative path; for the base URL
  \<^verbatim>\<open>https://api.example.com/v1/\<close>, the relative path \<^verbatim>\<open>widgets\<close> and the method GET it
  is \<^verbatim>\<open>https://api.example.com/v1/widgets\<close>. The code does so in the scenario, but
  \<^verbatim>\<open>NewRequest\<close> passes the joined path, a decoded path, through \<^verbatim>\<open>url.Parse\<close> as if it
  were a URL reference, and misses two cases:
  \<^item> with the base URL \<^verbatim>\<open>https://api.example.com\<close>, whose path is empty, the relative path
    \<^verbatim>\<open>widgets:search\<close> is read as the scheme \<^verbatim>\<open>widgets\<close> with the opaque part
    \<^verbatim>\<open>search\<close>: the URL of the request is \<^verbatim>\<open>widgets:search\<close>, with no host, and not
    \<^verbatim>\<open>https://api.example.com/widgets:search\<close>. The same client joins \<^verbatim>\<open>widgets\<close> to
    \<^verbatim>\<open>/widgets\<close>, and the base URL \<^verbatim>\<open>https://api.example.com/\<close>, with the path \<^verbatim>\<open>/\<close>,
    joins \<^verbatim>\<open>widgets:search\<close> to \<^verbatim>\<open>/widgets:search\<close>;
  \<^item> with the base URL \<^verbatim>\<open>https://api.example.com/100%25/\<close>, whose path is \<^verbatim>\<open>/100%/\<close>,
    the percent sign of the base path is read as the start of an escape: \<^verbatim>\<open>NewRequest\<close>
    fails for the relative path \<^verbatim>\<open>widgets\<close> with \<^verbatim>\<open>error parsing path\<close>, and builds no
    request.
\<close>

theorem NewRequest_parses_joined_path_as_reference:
  "(case NewRestClient example_transport ''https://api.example.com'' [] of
      Inl err \<Rightarrow> False
    | Inr c \<Rightarrow>
        baseURL c = example_base\<lparr>Path := []\<rparr>
        \<and> (case NewRequest (\<lambda>b::unit. Inr []) c (Some ()) ''GET'' ''widgets:search'' None of
             Inl err \<Rightarrow> False
           | Inr req \<Rightarrow>
               URL req = new_URL\<lparr>Scheme := ''widgets'', Opaque := ''search''\<rparr>
               \<and> URL req \<noteq> example_base\<lparr>Path := ''/widgets:search''\<rparr>)
        \<and> (case NewRequest (\<lambda>b::unit. Inr []) c (Some ()) ''GET'' ''widgets'' None of
             Inl err \<Rightarrow> False
           | Inr req \<Rightarrow> URL req = example_base\<lparr>Path := ''/widgets''\<rparr>))
   \<and> (case NewRestClient example_transport ''https://api.example.com/'' [] of
        Inl err \<Rightarrow> False
      | Inr c \<Rightarrow>
          baseURL c = example_base\<lparr>Path := ''/''\<rparr>
          \<and> (case NewRequest (\<lambda>b::unit. Inr []) c (Some ()) ''GET'' ''widgets:search'' None of
               Inl err \<Rightarrow> False
             | Inr req \<Rightarrow> URL req = example_base\<lparr>Path := ''/widgets:search''\<rparr>))
   \<and> (case NewRequest (\<lambda>b::unit. Inr []) example_client (Some ()) ''GET'' ''widgets'' None of
        Inl err \<Rightarrow> False
      | Inr req \<Rightarrow> URL req = example_base\<lparr>Path := ''/v1/widgets''\<rparr>)
   \<and> (case NewRestClient example_transport ''https://api.example.com/100%25/'' [] of
        Inl err \<Rightarrow> False
      | Inr c \<Rightarrow>
          baseURL c = example_base\<lparr>Path := ''/100%/''\<rparr>
          \<and> (case NewRequest (\<lambda>b::unit. Inr []) c (Some ()) ''GET'' ''widgets'' None of
               Inl err \<Rightarrow>
                 err = WrapError ''error parsing path: ''
                         (UrlError ''parse'' ''/100%/widgets'' (EscapeError ''%/w''))
             | Inr req \<Rightarrow> False))"
  by code_simp

end
